theory Spec2Isabelle
  imports Main "HOL-Library.Word" "HOL-Library.Sublist"
begin

section \<open>Resharing orchestration and operator registration of rockx-dkg-cli\<close>

text \<open>
  The development embeds \<^verbatim>\<open>internal/cli/handle_resharing.go\<close> and the functions
  \<^verbatim>\<open>RegisterOperatorNode\<close> and \<^verbatim>\<open>CreateTopic\<close> of
  \<^verbatim>\<open>internal/messenger/client.go\<close>.
  Go's \<^verbatim>\<open>int\<close> is taken to be 64 bits wide, \<^verbatim>\<open>types.OperatorID\<close> is
  \<^verbatim>\<open>uint64\<close>, and a Go string is a sequence of bytes.
\<close>

type_synonym byte = "8 word"
type_synonym OperatorID = "64 word"

subsection \<open>The functions of Go's standard library that the code calls\<close>

text \<open>\<^verbatim>\<open>strings.Trim(s, " ")\<close>: all leading and trailing spaces are removed.\<close>

definition strings_Trim :: "string \<Rightarrow> string" where
  "strings_Trim s =
     rev (dropWhile (\<lambda>c. c = CHR '' '') (rev (dropWhile (\<lambda>c. c = CHR '' '') s)))"

text \<open>
  \<^verbatim>\<open>strings.Split(s, sep)\<close> for a separator of one byte: the pieces between the
  occurrences of the separator, one more piece than there are occurrences.
\<close>

fun strings_Split :: "string \<Rightarrow> char \<Rightarrow> string list" where
  "strings_Split [] sep = [[]]"
| "strings_Split (c # cs) sep =
     (if c = sep then [] # strings_Split cs sep
      else (case strings_Split cs sep of
              [] \<Rightarrow> [[c]]
            | p # ps \<Rightarrow> (c # p) # ps))"

text \<open>
  \<^verbatim>\<open>strconv.Atoi\<close> is \<^verbatim>\<open>ParseInt(s, 10, 0)\<close>: an optional sign, then
  \<^verbatim>\<open>ParseUint\<close> in base 10 on 64 bits, then the range check of a signed 64-bit
  integer. The error is a \<^verbatim>\<open>*strconv.NumError\<close> whose \<^verbatim>\<open>Err\<close> field is
  \<^verbatim>\<open>ErrSyntax\<close> or \<^verbatim>\<open>ErrRange\<close>.
\<close>

datatype num_err = ErrSyntax | ErrRange

definition maxUint64 :: int where
  "maxUint64 = 2 ^ 64 - 1"

definition is_digit :: "char \<Rightarrow> bool" where
  "is_digit c \<longleftrightarrow> 48 \<le> (of_char c :: int) \<and> (of_char c :: int) \<le> 57"

definition digit_val :: "char \<Rightarrow> int" where
  "digit_val c = of_char c - 48"

text \<open>
  The loop of \<^verbatim>\<open>ParseUint\<close>, with \<^verbatim>\<open>n\<close> an unsigned 64-bit number that the two
  checks keep from wrapping around: a number at or above the cutoff cannot be
  multiplied by 10, and a sum above the maximum is the overflow Go detects by
  \<^verbatim>\<open>n1 < n\<close>.
\<close>

fun parseUint_loop :: "int \<Rightarrow> string \<Rightarrow> num_err + int" where
  "parseUint_loop n [] = Inr n"
| "parseUint_loop n (c # cs) =
     (if \<not> is_digit c then Inl ErrSyntax
      else if n \<ge> maxUint64 div 10 + 1 then Inl ErrRange
      else if n * 10 + digit_val c > maxUint64 then Inl ErrRange
      else parseUint_loop (n * 10 + digit_val c) cs)"

definition strconv_ParseUint :: "string \<Rightarrow> num_err + int" where
  "strconv_ParseUint s = (if s = [] then Inl ErrSyntax else parseUint_loop 0 s)"

definition strconv_Atoi :: "string \<Rightarrow> num_err + int" where
  "strconv_Atoi s =
     (case s of
        [] \<Rightarrow> Inl ErrSyntax
      | c # cs \<Rightarrow>
          (let neg = (c = CHR ''-'');
               s' = (if c = CHR ''+'' \<or> c = CHR ''-'' then cs else s)
           in case strconv_ParseUint s' of
                Inl ErrSyntax \<Rightarrow> Inl ErrSyntax
              | r \<Rightarrow>
                  (let un = (case r of Inr u \<Rightarrow> u | Inl _ \<Rightarrow> maxUint64)
                   in if \<not> neg \<and> un \<ge> 2 ^ 63 then Inl ErrRange
                      else if neg \<and> un > 2 ^ 63 then Inl ErrRange
                      else Inr (if neg then - un else un))))"

text \<open>
  \<^verbatim>\<open>strconv.Itoa\<close>: the decimal digits, after a minus sign for a negative number.
  \<open>decimal\<close> is called on numbers that are not negative.
\<close>

definition digit_char :: "int \<Rightarrow> char" where
  "digit_char d = ''0123456789'' ! nat d"

function decimal :: "int \<Rightarrow> string" where
  "decimal n = (if n < 10 then [digit_char n] else decimal (n div 10) @ [digit_char (n mod 10)])"
  by pat_completeness auto
termination
  by (relation "measure nat") auto

declare decimal.simps [simp del]

definition strconv_Itoa :: "int \<Rightarrow> string" where
  "strconv_Itoa i = (if i < 0 then CHR ''-'' # decimal (- i) else decimal i)"

text \<open>
  \<^verbatim>\<open>hex.DecodeString\<close>: two hexadecimal digits (of either case) per byte. The first
  byte that is no hexadecimal digit is reported as \<^verbatim>\<open>InvalidByteError\<close>; a string
  of hexadecimal digits of odd length is reported as \<^verbatim>\<open>ErrLength\<close>.
\<close>

datatype hex_error = InvalidByteError char | ErrLength

definition fromHexChar :: "char \<Rightarrow> nat option" where
  "fromHexChar c =
     (let n = (of_char c :: nat)
      in if 48 \<le> n \<and> n \<le> 57 then Some (n - 48)
         else if 97 \<le> n \<and> n \<le> 102 then Some (n - 97 + 10)
         else if 65 \<le> n \<and> n \<le> 70 then Some (n - 65 + 10)
         else None)"

fun hex_DecodeString :: "string \<Rightarrow> hex_error + byte list" where
  "hex_DecodeString [] = Inr []"
| "hex_DecodeString [p] =
     (case fromHexChar p of None \<Rightarrow> Inl (InvalidByteError p) | Some a \<Rightarrow> Inl ErrLength)"
| "hex_DecodeString (p # q # rest) =
     (case fromHexChar p of
        None \<Rightarrow> Inl (InvalidByteError p)
      | Some a \<Rightarrow>
          (case fromHexChar q of
             None \<Rightarrow> Inl (InvalidByteError q)
           | Some b \<Rightarrow>
               (case hex_DecodeString rest of
                  Inl e \<Rightarrow> Inl e
                | Inr bs \<Rightarrow> Inr (of_nat (a * 16 + b) # bs))))"

text \<open>\<^verbatim>\<open>hex.EncodeToString\<close>: two lower-case hexadecimal digits per byte.\<close>

definition hex_digit :: "nat \<Rightarrow> char" where
  "hex_digit d = ''0123456789abcdef'' ! d"

definition hex_EncodeToString :: "byte list \<Rightarrow> string" where
  "hex_EncodeToString bs =
     concat (map (\<lambda>b. [hex_digit (unat b div 16), hex_digit (unat b mod 16)]) bs)"

text \<open>Indexing a Go map of strings: the zero value, the empty string, for an absent key.\<close>

definition go_index :: "('k \<rightharpoonup> string) \<Rightarrow> 'k \<Rightarrow> string" where
  "go_index m k = (case m k of None \<Rightarrow> [] | Some v \<Rightarrow> v)"

text \<open>
  \<^verbatim>\<open>for k := range m\<close> visits every key of the map once, in an order the language
  leaves open: \<open>map_range m ks\<close> says that \<open>ks\<close> is one of the possible orders.
\<close>

definition map_range :: "('k \<rightharpoonup> 'v) \<Rightarrow> 'k list \<Rightarrow> bool" where
  "map_range m ks \<longleftrightarrow> distinct ks \<and> set ks = dom m"

subsection \<open>Errors, requests and the network\<close>

text \<open>
  Every error value the embedded functions build, one constructor per place of the
  source: the three wrappers of \<^verbatim>\<open>HandleResharing\<close> stand for its three
  \<^verbatim>\<open>fmt.Errorf("...: %w", err)\<close>.
\<close>

datatype error =
    ErrNotKeyValue string
  | ErrAtoi string num_err
  | ErrHex hex_error
  | ErrEncoding string
  | ErrTransport string
  | ErrCreateTopicStatus
  | ErrSendReshare nat OperatorID
  | ErrParseRequest error
  | ErrCreateTopic error
  | ErrInitMsg error
  | ErrMakeRequest string
  | ErrRegisterTries nat "error list"

record ResharingRequest =
  Operators :: "OperatorID \<rightharpoonup> string"
  Threshold :: int
  ValidatorPK :: string
  OperatorsOld :: "OperatorID \<rightharpoonup> string"

text \<open>The four flags \<^verbatim>\<open>parseResharingRequest\<close> reads from the \<^verbatim>\<open>cli.Context\<close>.\<close>

record cli_Context =
  flag_threshold :: int
  flag_validator_pk :: string
  flag_operator :: "string list"
  flag_old_operator :: "string list"

subsection \<open>\<^verbatim>\<open>parseResharingRequest\<close> and \<^verbatim>\<open>nodeAddress\<close>\<close>

text \<open>
  The two loops of \<^verbatim>\<open>parseResharingRequest\<close> have the same body; \<open>parse_operators\<close>
  is that loop, run on the map it fills.
\<close>

fun parse_operators ::
  "string list \<Rightarrow> (OperatorID \<rightharpoonup> string) \<Rightarrow> error + (OperatorID \<rightharpoonup> string)" where
  "parse_operators [] m = Inr m"
| "parse_operators (op # ops) m =
     (let op' = strings_Trim op;
          pair = strings_Split op' (CHR ''='')
      in if length pair \<noteq> 2 then Inl (ErrNotKeyValue op')
         else (case strconv_Atoi (pair ! 0) of
                 Inl e \<Rightarrow> Inl (ErrAtoi (pair ! 0) e)
               | Inr opID \<Rightarrow> parse_operators ops (m(word_of_int opID \<mapsto> pair ! 1))))"

definition parseResharingRequest :: "cli_Context \<Rightarrow> error + ResharingRequest" where
  "parseResharingRequest c =
     (case parse_operators (flag_operator c) Map.empty of
        Inl e \<Rightarrow> Inl e
      | Inr ops \<Rightarrow>
          (case parse_operators (flag_old_operator c) Map.empty of
             Inl e \<Rightarrow> Inl e
           | Inr opsOld \<Rightarrow>
               Inr \<lparr>Operators = ops, Threshold = flag_threshold c,
                    ValidatorPK = flag_validator_pk c, OperatorsOld = opsOld\<rparr>))"

definition nodeAddress :: "ResharingRequest \<Rightarrow> OperatorID \<Rightarrow> string" where
  "nodeAddress request operatorID =
     (case Operators request operatorID of
        Some _ \<Rightarrow> go_index (Operators request) operatorID
      | None \<Rightarrow> go_index (OperatorsOld request) operatorID)"

subsection \<open>The network, the standard output and the log\<close>

text \<open>
  \<^verbatim>\<open>http.Client.Post\<close> either fails with a transport error or returns a response,
  of which the code reads the status only. The body of a request is kept as the value
  that was marshalled: the JSON of a \<^verbatim>\<open>TopicJSON\<close> (topic name, subscribers), the
  JSON of a \<^verbatim>\<open>Subscriber\<close> (name, address), or raw bytes. The content type is
  \<^verbatim>\<open>application/json\<close> in every call and is left out.
\<close>

datatype http_result = TransportError string | StatusCode nat

datatype body =
    TopicJSON string "string list"
  | SubscriberJSON string string
  | Bytes "byte list"

text \<open>
  The world outside the program: \<open>respond w n url b\<close> is what the network answers to the
  call number \<open>n\<close> (counted from 0) when it posts \<open>b\<close> to \<open>url\<close>; \<open>calls\<close> are the
  requests made so far, \<open>stdout\<close> what \<^verbatim>\<open>fmt.Printf\<close> wrote and \<open>logged\<close> the errors
  given to \<^verbatim>\<open>log.Printf\<close>, each oldest first.
\<close>

record world =
  respond :: "nat \<Rightarrow> string \<Rightarrow> body \<Rightarrow> http_result"
  calls :: "(string \<times> body) list"
  stdout :: "string list"
  logged :: "error list"

definition http_Post :: "string \<Rightarrow> body \<Rightarrow> world \<Rightarrow> http_result \<times> world" where
  "http_Post url b w = (respond w (length (calls w)) url b, w\<lparr>calls := calls w @ [(url, b)]\<rparr>)"

subsection \<open>\<^verbatim>\<open>messenger.Client\<close>: \<^verbatim>\<open>NewMessengerClient\<close>, \<^verbatim>\<open>CreateTopic\<close>, \<^verbatim>\<open>RegisterOperatorNode\<close>\<close>

text \<open>The client is its \<^verbatim>\<open>SrvAddr\<close>; its HTTP client posts to the same network.\<close>

definition NewMessengerClient :: "string \<Rightarrow> string" where
  "NewMessengerClient srvAddr =
     (if srvAddr = [] then ''https://dkg-messenger.rockx.com'' else srvAddr)"

definition CreateTopic ::
  "string \<Rightarrow> string \<Rightarrow> OperatorID list \<Rightarrow> world \<Rightarrow> error option \<times> world" where
  "CreateTopic SrvAddr requestID l w =
     (let topic = TopicJSON requestID (map (\<lambda>operatorID. strconv_Itoa (sint operatorID)) l)
      in case http_Post (SrvAddr @ ''/topics'') topic w of
           (TransportError e, w') \<Rightarrow> (Some (ErrTransport e), w')
         | (StatusCode code, w') \<Rightarrow>
             if code \<noteq> 200 then (Some ErrCreateTopicStatus, w') else (None, w'))"

text \<open>
  A call either returns or panics. In the branch of a status other than 200,
  \<^verbatim>\<open>RegisterOperatorNode\<close> evaluates \<^verbatim>\<open>err.Error()\<close> on the \<^verbatim>\<open>err\<close> of the
  \<^verbatim>\<open>Post\<close> (the new \<^verbatim>\<open>err\<close> is in scope only after its declaration), which is
  \<^verbatim>\<open>nil\<close> there: the method call on the nil interface panics.
\<close>

datatype 'a outcome = Returned 'a | Panic

text \<open>
  The loop \<^verbatim>\<open>for ; try <= numtries; try++\<close>, returning \<^verbatim>\<open>try\<close> and
  \<^verbatim>\<open>errors\<close> as they are when it is left. \<^verbatim>\<open>DefaultTopic\<close> is a constant of the
  package declared in another file: it is a parameter.
\<close>

function register_loop ::
  "string \<Rightarrow> string \<Rightarrow> string \<Rightarrow> string \<Rightarrow> nat \<Rightarrow> nat \<Rightarrow> error list \<Rightarrow> world
     \<Rightarrow> (nat \<times> error list) outcome \<times> world" where
  "register_loop SrvAddr DefaultTopic nodeID addr numtries try errors w =
     (if try \<le> numtries then
        (case http_Post (SrvAddr @ ''/register_node?subscribes_to='' @ DefaultTopic)
                (SubscriberJSON nodeID addr) w of
           (TransportError e, w') \<Rightarrow>
             register_loop SrvAddr DefaultTopic nodeID addr numtries (try + 1)
               (errors @ [ErrMakeRequest e]) (w'\<lparr>logged := logged w' @ [ErrMakeRequest e]\<rparr>)
         | (StatusCode code, w') \<Rightarrow>
             if code \<noteq> 200 then (Panic, w') else (Returned (try, errors), w'))
      else (Returned (try, errors), w))"
  by pat_completeness auto
termination
  by (relation "measure (\<lambda>(SrvAddr, DefaultTopic, nodeID, addr, numtries, try, errors, w).
        numtries + 1 - try)") auto

declare register_loop.simps [simp del]

definition RegisterOperatorNode ::
  "string \<Rightarrow> string \<Rightarrow> string \<Rightarrow> string \<Rightarrow> world \<Rightarrow> error option outcome \<times> world" where
  "RegisterOperatorNode SrvAddr DefaultTopic nodeID addr w =
     (case register_loop SrvAddr DefaultTopic nodeID addr 3 1 [] w of
        (Panic, w') \<Rightarrow> (Panic, w')
      | (Returned (try, errors), w') \<Rightarrow>
          if try > 3 then (Returned (Some (ErrRegisterTries 3 errors)), w')
          else (Returned None, w'))"

subsection \<open>\<^verbatim>\<open>HandleResharing\<close>\<close>

text \<open>
  What \<^verbatim>\<open>HandleResharing\<close> takes from outside the two files: the random request ID of
  \<^verbatim>\<open>getRandRequestID\<close>, the messenger address of \<^verbatim>\<open>MessengerAddrFromEnv\<close>, the
  orders in which the four \<^verbatim>\<open>range\<close> loops of \<^verbatim>\<open>newOperators\<close> and
  \<^verbatim>\<open>oldOperators\<close> visit the maps (two in \<^verbatim>\<open>HandleResharing\<close>, two in
  \<^verbatim>\<open>initMsgForResharing\<close>), and the encoders of ssv-spec. An encoder returns bytes
  and an error, as the Go functions do:
  \<open>Reshare_Encode\<close> is \<^verbatim>\<open>testingutils.ReshareMessageData(...).Encode()\<close>,
  \<open>SignedMessage_Encode\<close> is \<^verbatim>\<open>testingutils.SignDKGMsg(...).Encode()\<close> for a message of
  type \<^verbatim>\<open>ReshareMsgType\<close> with the given identifier and data, signed with the key
  of the testing key set, and \<open>SSVMessage_Encode\<close> is \<^verbatim>\<open>Encode\<close> of the
  \<^verbatim>\<open>SSVMessage\<close> of type \<^verbatim>\<open>DKGMsgType\<close> with the given data.
\<close>

record ReshareArgs =
  rs_operators :: "OperatorID list"
  rs_threshold :: "16 word"
  rs_validatorPK :: "byte list"
  rs_operatorsOld :: "OperatorID list"

record environment =
  requestID :: "byte list"
  MessengerAddrFromEnv :: string
  range_Operators :: "OperatorID list"
  range_OperatorsOld :: "OperatorID list"
  range_Operators_msg :: "OperatorID list"
  range_OperatorsOld_msg :: "OperatorID list"
  Reshare_Encode :: "ReshareArgs \<Rightarrow> byte list \<times> error option"
  SignedMessage_Encode :: "byte list \<Rightarrow> byte list \<Rightarrow> byte list \<times> error option"
  SSVMessage_Encode :: "byte list \<Rightarrow> byte list \<times> error option"

text \<open>
  \<^verbatim>\<open>newOperators\<close> and \<^verbatim>\<open>oldOperators\<close> append the keys in the order the
  \<^verbatim>\<open>range\<close> visits them: \<open>newOperators request ks\<close> says that \<open>ks\<close> is a list the
  call can return.
\<close>

definition newOperators :: "ResharingRequest \<Rightarrow> OperatorID list \<Rightarrow> bool" where
  "newOperators request ks \<longleftrightarrow> map_range (Operators request) ks"

definition oldOperators :: "ResharingRequest \<Rightarrow> OperatorID list \<Rightarrow> bool" where
  "oldOperators request ks \<longleftrightarrow> map_range (OperatorsOld request) ks"

definition sendReshareMsg ::
  "OperatorID \<Rightarrow> string \<Rightarrow> byte list \<Rightarrow> world \<Rightarrow> error option \<times> world" where
  "sendReshareMsg operatorID addr data w =
     (case http_Post (addr @ ''/consume'') (Bytes data) w of
        (TransportError e, w') \<Rightarrow> (Some (ErrTransport e), w')
      | (StatusCode code, w') \<Rightarrow>
          if code \<noteq> 200 then (Some (ErrSendReshare code operatorID), w') else (None, w'))"

definition initMsgForResharing ::
  "environment \<Rightarrow> ResharingRequest \<Rightarrow> byte list \<Rightarrow> error + byte list" where
  "initMsgForResharing env request reqID =
     (case hex_DecodeString (ValidatorPK request) of
        Inl e \<Rightarrow> Inl (ErrHex e)
      | Inr vk \<Rightarrow>
          (let reshareBytes =
                 fst (Reshare_Encode env
                        \<lparr>rs_operators = range_Operators_msg env,
                         rs_threshold = word_of_int (Threshold request),
                         rs_validatorPK = vk,
                         rs_operatorsOld = range_OperatorsOld_msg env\<rparr>);
               byts = fst (SignedMessage_Encode env reqID reshareBytes)
           in case SSVMessage_Encode env byts of
                (b, Some e) \<Rightarrow> Inl e
              | (b, None) \<Rightarrow> Inr b))"

text \<open>The loop over \<^verbatim>\<open>alloperators\<close> of \<^verbatim>\<open>HandleResharing\<close>.\<close>

fun deliver ::
  "ResharingRequest \<Rightarrow> byte list \<Rightarrow> OperatorID list \<Rightarrow> world \<Rightarrow> error option \<times> world" where
  "deliver request initMsgBytes [] w = (None, w)"
| "deliver request initMsgBytes (operatorID # rest) w =
     (case sendReshareMsg operatorID (nodeAddress request operatorID) initMsgBytes w of
        (Some err, w') \<Rightarrow> (Some err, w')
      | (None, w') \<Rightarrow> deliver request initMsgBytes rest w')"

definition sent_line :: "string \<Rightarrow> string" where
  "sent_line requestIDInHex =
     ''resharing init request sent with ID: '' @ requestIDInHex @ [CHR 0x0A]"

definition HandleResharing ::
  "environment \<Rightarrow> cli_Context \<Rightarrow> world \<Rightarrow> error option \<times> world" where
  "HandleResharing env c w =
     (case parseResharingRequest c of
        Inl err \<Rightarrow> (Some (ErrParseRequest err), w)
      | Inr resharingRequest \<Rightarrow>
          (let requestIDInHex = hex_EncodeToString (requestID env);
               alloperators = range_Operators env @ range_OperatorsOld env
           in case CreateTopic (NewMessengerClient (MessengerAddrFromEnv env))
                     requestIDInHex alloperators w of
                (Some err, w1) \<Rightarrow> (Some (ErrCreateTopic err), w1)
              | (None, w1) \<Rightarrow>
                  (case initMsgForResharing env resharingRequest (requestID env) of
                     Inl err \<Rightarrow> (Some (ErrInitMsg err), w1)
                   | Inr initMsgBytes \<Rightarrow>
                       (case deliver resharingRequest initMsgBytes alloperators w1 of
                          (Some err, w2) \<Rightarrow> (Some err, w2)
                        | (None, w2) \<Rightarrow>
                            (None, w2\<lparr>stdout := stdout w2 @ [sent_line requestIDInHex]\<rparr>)))))"

subsection \<open>Vocabulary of the statements\<close>

text \<open>
  The list \<^verbatim>\<open>alloperators\<close> of \<^verbatim>\<open>HandleResharing\<close>, the request that creates the
  topic, the request that delivers the message to one operator, and the requests a run
  adds to the ones made before it.
\<close>

definition alloperators :: "environment \<Rightarrow> OperatorID list" where
  "alloperators env = range_Operators env @ range_OperatorsOld env"

definition topic_call :: "environment \<Rightarrow> string \<times> body" where
  "topic_call env =
     (NewMessengerClient (MessengerAddrFromEnv env) @ ''/topics'',
      TopicJSON (hex_EncodeToString (requestID env))
        (map (\<lambda>operatorID. strconv_Itoa (sint operatorID)) (alloperators env)))"

definition consume_call :: "ResharingRequest \<Rightarrow> byte list \<Rightarrow> OperatorID \<Rightarrow> string \<times> body" where
  "consume_call request msg operatorID = (nodeAddress request operatorID @ ''/consume'', Bytes msg)"

definition new_calls :: "world \<Rightarrow> world \<Rightarrow> (string \<times> body) list" where
  "new_calls w w' = drop (length (calls w)) (calls w')"

text \<open>
  What the network answers: to the creation of the topic, which is the first call of a
  run, and to a delivery made as call number \<open>n\<close>. In a run whose set-up succeeds the
  delivery to the entry \<open>i\<close> of \<^verbatim>\<open>alloperators\<close>, if it is reached, is the call after
  the creation of the topic and \<open>i\<close> deliveries.
\<close>

definition topic_answer :: "environment \<Rightarrow> world \<Rightarrow> http_result" where
  "topic_answer env w = respond w (length (calls w)) (fst (topic_call env)) (snd (topic_call env))"

definition delivery_answer ::
  "world \<Rightarrow> nat \<Rightarrow> ResharingRequest \<Rightarrow> byte list \<Rightarrow> OperatorID \<Rightarrow> http_result" where
  "delivery_answer w n request msg operatorID =
     respond w n (nodeAddress request operatorID @ ''/consume'') (Bytes msg)"

definition nth_delivery_answer ::
  "environment \<Rightarrow> world \<Rightarrow> ResharingRequest \<Rightarrow> byte list \<Rightarrow> nat \<Rightarrow> http_result" where
  "nth_delivery_answer env w request msg i =
     delivery_answer w (length (calls w) + 1 + i) request msg (alloperators env ! i)"

text \<open>The error \<^verbatim>\<open>sendReshareMsg\<close> makes of an answer, none for the status 200.\<close>

definition delivery_error :: "http_result \<Rightarrow> OperatorID \<Rightarrow> error option" where
  "delivery_error r operatorID =
     (case r of
        TransportError e \<Rightarrow> Some (ErrTransport e)
      | StatusCode code \<Rightarrow> if code \<noteq> 200 then Some (ErrSendReshare code operatorID) else None)"

text \<open>
  The set-up of a session succeeds: the request parses, the messenger answers the
  creation of the topic with the status 200, and the message is composed.
\<close>

definition setup_ok ::
  "environment \<Rightarrow> cli_Context \<Rightarrow> world \<Rightarrow> ResharingRequest \<Rightarrow> byte list \<Rightarrow> bool" where
  "setup_ok env c w request msg \<longleftrightarrow>
     parseResharingRequest c = Inr request \<and>
     topic_answer env w = StatusCode 200 \<and>
     initMsgForResharing env request (requestID env) = Inr msg"

text \<open>The request of a registration, and what the network answers to it as call \<open>n\<close>.\<close>

definition register_call :: "string \<Rightarrow> string \<Rightarrow> string \<Rightarrow> string \<Rightarrow> string \<times> body" where
  "register_call SrvAddr DefaultTopic nodeID addr =
     (SrvAddr @ ''/register_node?subscribes_to='' @ DefaultTopic, SubscriberJSON nodeID addr)"

definition register_answer ::
  "world \<Rightarrow> nat \<Rightarrow> string \<Rightarrow> string \<Rightarrow> string \<Rightarrow> string \<Rightarrow> http_result" where
  "register_answer w n SrvAddr DefaultTopic nodeID addr =
     respond w n (fst (register_call SrvAddr DefaultTopic nodeID addr))
       (snd (register_call SrvAddr DefaultTopic nodeID addr))"

text \<open>A valid hexadecimal string: an even number of hexadecimal digits.\<close>

definition valid_hex :: "string \<Rightarrow> bool" where
  "valid_hex s \<longleftrightarrow> even (length s) \<and> list_all (\<lambda>c. fromHexChar c \<noteq> None) s"

text \<open>
  An optionally signed decimal literal and its value, when the value is in the range of
  a signed 64-bit integer: what \<^verbatim>\<open>strconv.Atoi\<close> accepts.
\<close>

definition decimal_value :: "string \<Rightarrow> int" where
  "decimal_value ds = foldl (\<lambda>n c. n * 10 + digit_val c) 0 ds"

definition int_literal :: "string \<Rightarrow> int option" where
  "int_literal s =
     (case s of
        [] \<Rightarrow> None
      | c # cs \<Rightarrow>
          (let ds = (if c = CHR ''+'' \<or> c = CHR ''-'' then cs else s);
               v = (if c = CHR ''-'' then - decimal_value ds else decimal_value ds)
           in if ds \<noteq> [] \<and> list_all is_digit ds \<and> - (2 ^ 63) \<le> v \<and> v < 2 ^ 63
              then Some v else None))"

text \<open>
  An operator specification the parser accepts: without the spaces around it, it splits
  at \<^verbatim>\<open>=\<close> into two parts, and \<^verbatim>\<open>strconv.Atoi\<close> accepts the first.
\<close>

definition accepted_spec :: "string \<Rightarrow> bool" where
  "accepted_spec op =
     (case strings_Split (strings_Trim op) (CHR ''='') of
        [k, v] \<Rightarrow> (case strconv_Atoi k of Inl e \<Rightarrow> False | Inr n \<Rightarrow> True)
      | _ \<Rightarrow> False)"

text \<open>
  The operator ID of an accepted specification: the number \<^verbatim>\<open>strconv.Atoi\<close> reads,
  converted to \<^verbatim>\<open>types.OperatorID\<close>, an unsigned 64-bit number.
\<close>

definition spec_operatorID :: "string \<Rightarrow> OperatorID option" where
  "spec_operatorID op =
     (case strings_Split (strings_Trim op) (CHR ''='') of
        [k, v] \<Rightarrow> (case strconv_Atoi k of Inl e \<Rightarrow> None | Inr n \<Rightarrow> Some (word_of_int n))
      | _ \<Rightarrow> None)"

subsection \<open>Concrete sessions\<close>

text \<open>
  The scenario of the specification: operators \<^verbatim>\<open>1=http://a\<close>, \<^verbatim>\<open>2=http://b\<close>, old
  operators \<^verbatim>\<open>1=http://a\<close>, \<^verbatim>\<open>3=http://c\<close>, threshold 2, validator key \<^verbatim>\<open>ab12\<close>.
  The request ID is the two bytes \<^verbatim>\<open>ab 01\<close>, the messenger is at \<^verbatim>\<open>http://m\<close>, the
  maps are visited in increasing order of the keys, and each encoder puts one byte in
  front of its data and reports no error.
\<close>

definition scenario_ctx :: cli_Context where
  "scenario_ctx =
     \<lparr>flag_threshold = 2, flag_validator_pk = ''ab12'',
      flag_operator = [''1=http://a'', ''2=http://b''],
      flag_old_operator = [''1=http://a'', ''3=http://c'']\<rparr>"

definition scenario_env :: environment where
  "scenario_env =
     \<lparr>requestID = [0xab, 0x01], MessengerAddrFromEnv = ''http://m'',
      range_Operators = [1, 2], range_OperatorsOld = [1, 3],
      range_Operators_msg = [1, 2], range_OperatorsOld_msg = [1, 3],
      Reshare_Encode = (\<lambda>args. ([1], None)),
      SignedMessage_Encode = (\<lambda>ident data. (2 # data, None)),
      SSVMessage_Encode = (\<lambda>data. (3 # data, None))\<rparr>"

text \<open>A network that answers every request with the status 200, nothing done yet.\<close>

definition world_ok :: world where
  "world_ok = \<lparr>respond = (\<lambda>n url b. StatusCode 200), calls = [], stdout = [], logged = []\<rparr>"

text \<open>A network on which the operator at \<^verbatim>\<open>http://a\<close> answers 500, all others 200.\<close>

definition world_a_500 :: world where
  "world_a_500 =
     \<lparr>respond = (\<lambda>n url b. if url = ''http://a/consume'' then StatusCode 500 else StatusCode 200),
      calls = [], stdout = [], logged = []\<rparr>"

text \<open>A network on which the connection to \<^verbatim>\<open>http://b\<close> is refused.\<close>

definition world_b_refused :: world where
  "world_b_refused =
     \<lparr>respond = (\<lambda>n url b. if url = ''http://b/consume''
                            then TransportError ''connection refused'' else StatusCode 200),
      calls = [], stdout = [], logged = []\<rparr>"

text \<open>Two new operators and no old one.\<close>

definition two_ctx :: cli_Context where
  "two_ctx =
     \<lparr>flag_threshold = 2, flag_validator_pk = ''ab12'',
      flag_operator = [''1=http://a'', ''2=http://b''], flag_old_operator = []\<rparr>"

definition two_env :: environment where
  "two_env =
     scenario_env\<lparr>range_OperatorsOld := [], range_OperatorsOld_msg := []\<rparr>"

text \<open>One operator and the validator key \<^verbatim>\<open>zz\<close>.\<close>

definition zz_ctx :: cli_Context where
  "zz_ctx =
     \<lparr>flag_threshold = 1, flag_validator_pk = ''zz'',
      flag_operator = [''1=http://a''], flag_old_operator = []\<rparr>"

definition one_env :: environment where
  "one_env =
     scenario_env\<lparr>range_Operators := [1], range_OperatorsOld := [],
                  range_Operators_msg := [1], range_OperatorsOld_msg := []\<rparr>"

text \<open>One operator, whose ID is written \<^verbatim>\<open>-1\<close>.\<close>

definition negative_ctx :: cli_Context where
  "negative_ctx =
     \<lparr>flag_threshold = 1, flag_validator_pk = ''ab12'',
      flag_operator = [''-1=http://a''], flag_old_operator = []\<rparr>"

text \<open>
  A second specification without \<^verbatim>\<open>=\<close>, between spaces; and an old operator whose
  ID is no number.
\<close>

definition malformed_ctx :: cli_Context where
  "malformed_ctx =
     \<lparr>flag_threshold = 2, flag_validator_pk = ''ab12'',
      flag_operator = [''1=http://a'', '' 2http://b ''], flag_old_operator = []\<rparr>"

definition bad_id_ctx :: cli_Context where
  "bad_id_ctx =
     \<lparr>flag_threshold = 2, flag_validator_pk = ''ab12'',
      flag_operator = [''1=http://a''], flag_old_operator = [''x=http://c'']\<rparr>"

text \<open>An environment whose first two encoders report an error with their bytes.\<close>

definition failing_encoders_env :: environment where
  "failing_encoders_env =
     one_env\<lparr>Reshare_Encode := (\<lambda>args. ([], Some (ErrEncoding ''reshare''))),
              SignedMessage_Encode := (\<lambda>ident data. ([], Some (ErrEncoding ''signed message'')))\<rparr>"

text \<open>An environment whose encoder of the outer envelope reports an error.\<close>

definition outer_failing_env :: environment where
  "outer_failing_env =
     one_env\<lparr>SSVMessage_Encode := (\<lambda>data. ([], Some (ErrEncoding ''ssv message'')))\<rparr>"

text \<open>One operator and a valid validator key.\<close>

definition one_ctx :: cli_Context where
  "one_ctx =
     \<lparr>flag_threshold = 1, flag_validator_pk = ''ab12'',
      flag_operator = [''1=http://a''], flag_old_operator = []\<rparr>"

text \<open>The requests that the contexts above parse to.\<close>

definition scenario_request :: ResharingRequest where
  "scenario_request =
     \<lparr>Operators = [1 \<mapsto> ''http://a'', 2 \<mapsto> ''http://b''], Threshold = 2,
      ValidatorPK = ''ab12'', OperatorsOld = [1 \<mapsto> ''http://a'', 3 \<mapsto> ''http://c'']\<rparr>"

definition two_request :: ResharingRequest where
  "two_request =
     \<lparr>Operators = [1 \<mapsto> ''http://a'', 2 \<mapsto> ''http://b''], Threshold = 2,
      ValidatorPK = ''ab12'', OperatorsOld = Map.empty\<rparr>"

definition one_request :: ResharingRequest where
  "one_request =
     \<lparr>Operators = [1 \<mapsto> ''http://a''], Threshold = 1, ValidatorPK = ''ab12'',
      OperatorsOld = Map.empty\<rparr>"

text \<open>
  A messenger that answers every registration with the status 500, and one whose
  first connection fails and that answers 404 afterwards.
\<close>

definition world_500 :: world where
  "world_500 = \<lparr>respond = (\<lambda>n url b. StatusCode 500), calls = [], stdout = [], logged = []\<rparr>"

definition world_timeout_404 :: world where
  "world_timeout_404 =
     \<lparr>respond = (\<lambda>n url b. if n = 0 then TransportError ''timeout'' else StatusCode 404),
      calls = [], stdout = [], logged = []\<rparr>"

section \<open>Address resolution\<close>

text \<open>
  C9: for an operator ID present in both maps, \<open>nodeAddress\<close> returns the address of the
  new operator map; for an ID present only in the old map, the old map's address; for an
  ID in neither map, the empty string.
\<close>

theorem nodeAddress_precedence:
  "(Operators request operatorID = Some a \<and> OperatorsOld request operatorID = Some b
      \<longrightarrow> nodeAddress request operatorID = a)
   \<and> (Operators request operatorID = None \<and> OperatorsOld request operatorID = Some b
      \<longrightarrow> nodeAddress request operatorID = b)
   \<and> (Operators request operatorID = None \<and> OperatorsOld request operatorID = None
      \<longrightarrow> nodeAddress request operatorID = [])"
  by (simp add: nodeAddress_def go_index_def)

theorem nodeAddress_precedence_witness:
  "nodeAddress \<lparr>Operators = [1 \<mapsto> ''http://a''], Threshold = 2, ValidatorPK = ''ab12'',
                OperatorsOld = [1 \<mapsto> ''http://old'', 3 \<mapsto> ''http://c'']\<rparr> 1 = ''http://a''
   \<and> nodeAddress \<lparr>Operators = [1 \<mapsto> ''http://a''], Threshold = 2, ValidatorPK = ''ab12'',
                  OperatorsOld = [1 \<mapsto> ''http://old'', 3 \<mapsto> ''http://c'']\<rparr> 3 = ''http://c''
   \<and> nodeAddress \<lparr>Operators = [1 \<mapsto> ''http://a''], Threshold = 2, ValidatorPK = ''ab12'',
                  OperatorsOld = [1 \<mapsto> ''http://old'', 3 \<mapsto> ''http://c'']\<rparr> 7 = []"
  using nodeAddress_precedence
    [of "\<lparr>Operators = [1 \<mapsto> ''http://a''], Threshold = 2, ValidatorPK = ''ab12'',
          OperatorsOld = [1 \<mapsto> ''http://old'', 3 \<mapsto> ''http://c'']\<rparr>" 1 "''http://a''" "''http://old''"]
    nodeAddress_precedence
    [of "\<lparr>Operators = [1 \<mapsto> ''http://a''], Threshold = 2, ValidatorPK = ''ab12'',
          OperatorsOld = [1 \<mapsto> ''http://old'', 3 \<mapsto> ''http://c'']\<rparr>" 3 "''http://a''" "''http://c''"]
    nodeAddress_precedence
    [of "\<lparr>Operators = [1 \<mapsto> ''http://a''], Threshold = 2, ValidatorPK = ''ab12'',
          OperatorsOld = [1 \<mapsto> ''http://old'', 3 \<mapsto> ''http://c'']\<rparr>" 7 "''x''" "''y''"]
  by simp

section \<open>The delivery loop\<close>

lemma sendReshareMsg_eq:
  "sendReshareMsg operatorID addr d w =
     (delivery_error (respond w (length (calls w)) (addr @ ''/consume'') (Bytes d)) operatorID,
      w\<lparr>calls := calls w @ [(addr @ ''/consume'', Bytes d)]\<rparr>)"
  by (simp add: sendReshareMsg_def http_Post_def delivery_error_def split: http_result.splits)

lemma delivery_error_None: "delivery_error r operatorID = None \<longleftrightarrow> r = StatusCode 200"
  by (simp add: delivery_error_def split: http_result.splits)

lemma deliver_all_ok:
  "(\<And>i. i < length ops \<Longrightarrow>
      delivery_answer w (length (calls w) + i) request msg (ops ! i) = StatusCode 200) \<Longrightarrow>
   deliver request msg ops w = (None, w\<lparr>calls := calls w @ map (consume_call request msg) ops\<rparr>)"
proof (induction ops arbitrary: w)
  case Nil
  then show ?case by simp
next
  case (Cons operatorID rest)
  let ?w1 = "w\<lparr>calls := calls w @ [consume_call request msg operatorID]\<rparr>"
  have first: "delivery_answer w (length (calls w)) request msg operatorID = StatusCode 200"
    using Cons.prems [of 0] by simp
  have later: "delivery_answer ?w1 (length (calls ?w1) + i) request msg (rest ! i) = StatusCode 200"
    if "i < length rest" for i
    using Cons.prems [of "Suc i"] that by (simp add: delivery_answer_def)
  have "deliver request msg rest ?w1 =
          (None, ?w1\<lparr>calls := calls ?w1 @ map (consume_call request msg) rest\<rparr>)"
    by (rule Cons.IH) (rule later)
  with first show ?case
    by (simp add: sendReshareMsg_eq delivery_answer_def delivery_error_def consume_call_def)
qed

lemma deliver_first_failure:
  "k < length ops \<Longrightarrow>
   delivery_answer w (length (calls w) + k) request msg (ops ! k) \<noteq> StatusCode 200 \<Longrightarrow>
   (\<And>i. i < k \<Longrightarrow>
      delivery_answer w (length (calls w) + i) request msg (ops ! i) = StatusCode 200) \<Longrightarrow>
   deliver request msg ops w =
     (delivery_error (delivery_answer w (length (calls w) + k) request msg (ops ! k)) (ops ! k),
      w\<lparr>calls := calls w @ map (consume_call request msg) (take (Suc k) ops)\<rparr>)"
proof (induction ops arbitrary: w k)
  case Nil
  then show ?case by simp
next
  case (Cons operatorID rest)
  let ?w1 = "w\<lparr>calls := calls w @ [consume_call request msg operatorID]\<rparr>"
  show ?case
  proof (cases k)
    case 0
    with Cons.prems(2) show ?thesis
      by (auto simp add: sendReshareMsg_eq delivery_answer_def consume_call_def
          delivery_error_None split: option.splits)
  next
    case (Suc j)
    have first: "delivery_answer w (length (calls w)) request msg operatorID = StatusCode 200"
      using Cons.prems(3) [of 0] Suc by simp
    have j: "j < length rest"
      using Cons.prems(1) Suc by simp
    have fails: "delivery_answer ?w1 (length (calls ?w1) + j) request msg (rest ! j) \<noteq> StatusCode 200"
      using Cons.prems(2) Suc by (simp add: delivery_answer_def)
    have before: "delivery_answer ?w1 (length (calls ?w1) + i) request msg (rest ! i) = StatusCode 200"
      if "i < j" for i
      using Cons.prems(3) [of "Suc i"] that Suc by (simp add: delivery_answer_def)
    have "deliver request msg rest ?w1 =
            (delivery_error (delivery_answer ?w1 (length (calls ?w1) + j) request msg (rest ! j)) (rest ! j),
             ?w1\<lparr>calls := calls ?w1 @ map (consume_call request msg) (take (Suc j) rest)\<rparr>)"
      using j fails before by (rule Cons.IH)
    with first Suc show ?thesis
      by (simp add: sendReshareMsg_eq delivery_answer_def delivery_error_def consume_call_def)
  qed
qed

lemma deliver_calls:
  "\<exists>n\<le>length ops. snd (deliver request msg ops w) =
      w\<lparr>calls := calls w @ map (consume_call request msg) (take n ops)\<rparr>"
proof (induction ops arbitrary: w)
  case Nil
  then show ?case by simp
next
  case (Cons operatorID rest)
  let ?w1 = "w\<lparr>calls := calls w @ [consume_call request msg operatorID]\<rparr>"
  show ?case
  proof (cases "delivery_error (respond w (length (calls w))
                  (nodeAddress request operatorID @ ''/consume'') (Bytes msg)) operatorID")
    case None
    obtain n where "n \<le> length rest"
      and "snd (deliver request msg rest ?w1) =
             ?w1\<lparr>calls := calls ?w1 @ map (consume_call request msg) (take n rest)\<rparr>"
      using Cons.IH [of ?w1] by blast
    with None have "Suc n \<le> length (operatorID # rest) \<and>
        snd (deliver request msg (operatorID # rest) w) =
          w\<lparr>calls := calls w @ map (consume_call request msg) (take (Suc n) (operatorID # rest))\<rparr>"
      by (simp add: sendReshareMsg_eq consume_call_def)
    then show ?thesis by blast
  next
    case (Some err)
    then have "Suc 0 \<le> length (operatorID # rest) \<and>
        snd (deliver request msg (operatorID # rest) w) =
          w\<lparr>calls := calls w @ map (consume_call request msg) (take (Suc 0) (operatorID # rest))\<rparr>"
      by (simp add: sendReshareMsg_eq consume_call_def)
    then show ?thesis by blast
  qed
qed

section \<open>The stages of HandleResharing\<close>

lemma CreateTopic_eq:
  "CreateTopic (NewMessengerClient (MessengerAddrFromEnv env)) (hex_EncodeToString (requestID env))
     (range_Operators env @ range_OperatorsOld env) w =
   ((case topic_answer env w of
       TransportError e \<Rightarrow> Some (ErrTransport e)
     | StatusCode code \<Rightarrow> if code \<noteq> 200 then Some ErrCreateTopicStatus else None),
    w\<lparr>calls := calls w @ [topic_call env]\<rparr>)"
  by (simp add: CreateTopic_def http_Post_def topic_answer_def topic_call_def alloperators_def
      split: http_result.splits)

lemma HandleResharing_parse_error:
  "parseResharingRequest c = Inl err \<Longrightarrow> HandleResharing env c w = (Some (ErrParseRequest err), w)"
  by (simp add: HandleResharing_def)

lemma HandleResharing_topic_error:
  "parseResharingRequest c = Inr request \<Longrightarrow> topic_answer env w \<noteq> StatusCode 200 \<Longrightarrow>
   \<exists>err. HandleResharing env c w =
     (Some (ErrCreateTopic err), w\<lparr>calls := calls w @ [topic_call env]\<rparr>)"
  by (simp add: HandleResharing_def CreateTopic_eq Let_def split: http_result.splits)

lemma HandleResharing_initMsg_error:
  "parseResharingRequest c = Inr request \<Longrightarrow> topic_answer env w = StatusCode 200 \<Longrightarrow>
   initMsgForResharing env request (requestID env) = Inl err \<Longrightarrow>
   HandleResharing env c w = (Some (ErrInitMsg err), w\<lparr>calls := calls w @ [topic_call env]\<rparr>)"
  by (simp add: HandleResharing_def CreateTopic_eq Let_def)

lemma HandleResharing_deliver:
  "setup_ok env c w request msg \<Longrightarrow>
   HandleResharing env c w =
     (case deliver request msg (alloperators env) (w\<lparr>calls := calls w @ [topic_call env]\<rparr>) of
        (Some err, w2) \<Rightarrow> (Some err, w2)
      | (None, w2) \<Rightarrow>
          (None, w2\<lparr>stdout := stdout w2 @ [sent_line (hex_EncodeToString (requestID env))]\<rparr>))"
  by (simp add: setup_ok_def HandleResharing_def CreateTopic_eq Let_def alloperators_def)

lemma HandleResharing_all_ok:
  assumes "setup_ok env c w request msg"
    and "\<And>i. i < length (alloperators env) \<Longrightarrow>
           nth_delivery_answer env w request msg i = StatusCode 200"
  shows "HandleResharing env c w =
     (None, w\<lparr>calls := calls w @ topic_call env # map (consume_call request msg) (alloperators env),
              stdout := stdout w @ [sent_line (hex_EncodeToString (requestID env))]\<rparr>)"
proof -
  let ?w1 = "w\<lparr>calls := calls w @ [topic_call env]\<rparr>"
  have "deliver request msg (alloperators env) ?w1 =
          (None, ?w1\<lparr>calls := calls ?w1 @ map (consume_call request msg) (alloperators env)\<rparr>)"
    by (rule deliver_all_ok) (use assms(2) in \<open>simp add: nth_delivery_answer_def delivery_answer_def\<close>)
  then show ?thesis
    by (simp add: HandleResharing_deliver [OF assms(1)])
qed

lemma HandleResharing_first_failure:
  assumes "setup_ok env c w request msg"
    and "k < length (alloperators env)"
    and "nth_delivery_answer env w request msg k \<noteq> StatusCode 200"
    and "\<And>i. i < k \<Longrightarrow> nth_delivery_answer env w request msg i = StatusCode 200"
  shows "HandleResharing env c w =
     (delivery_error (nth_delivery_answer env w request msg k) (alloperators env ! k),
      w\<lparr>calls := calls w @ topic_call env #
                  map (consume_call request msg) (take (Suc k) (alloperators env))\<rparr>)"
proof -
  let ?w1 = "w\<lparr>calls := calls w @ [topic_call env]\<rparr>"
  have "deliver request msg (alloperators env) ?w1 =
     (delivery_error (delivery_answer ?w1 (length (calls ?w1) + k) request msg (alloperators env ! k))
        (alloperators env ! k),
      ?w1\<lparr>calls := calls ?w1 @ map (consume_call request msg) (take (Suc k) (alloperators env))\<rparr>)"
    by (rule deliver_first_failure)
      (use assms(2-4) in \<open>simp_all add: nth_delivery_answer_def delivery_answer_def\<close>)
  moreover have "delivery_error (nth_delivery_answer env w request msg k) (alloperators env ! k) \<noteq> None"
    using assms(3) by (simp add: delivery_error_None)
  ultimately show ?thesis
    by (auto simp add: HandleResharing_deliver [OF assms(1)] nth_delivery_answer_def
        delivery_answer_def split: option.splits)
qed

section \<open>Evaluation of the concrete sessions\<close>

lemmas run_defs =
  HandleResharing_def parseResharingRequest_def strings_Trim_def strconv_Atoi_def
  strconv_ParseUint_def is_digit_def digit_val_def maxUint64_def CreateTopic_def http_Post_def
  NewMessengerClient_def hex_EncodeToString_def hex_digit_def strconv_Itoa_def decimal.simps
  digit_char_def initMsgForResharing_def fromHexChar_def sendReshareMsg_def nodeAddress_def
  go_index_def sent_line_def

lemmas session_defs =
  scenario_ctx_def scenario_env_def world_ok_def world_a_500_def world_b_refused_def
  two_ctx_def two_env_def zz_ctx_def one_env_def negative_ctx_def failing_encoders_env_def
  one_ctx_def outer_failing_env_def world_500_def malformed_ctx_def bad_id_ctx_def
  scenario_request_def two_request_def one_request_def

lemmas vocabulary_defs =
  setup_ok_def topic_answer_def topic_call_def alloperators_def nth_delivery_answer_def
  delivery_answer_def delivery_error_def consume_call_def new_calls_def

lemma new_calls_append [simp]: "new_calls w (w\<lparr>calls := calls w @ cs\<rparr>) = cs"
  by (simp add: new_calls_def)

lemma new_calls_append_stdout [simp]:
  "new_calls w (w\<lparr>calls := calls w @ cs, stdout := out\<rparr>) = cs"
  by (simp add: new_calls_def)

lemma setup_two_b_refused:
  "setup_ok two_env two_ctx world_b_refused two_request [3, 2, 1]"
  by (simp add: vocabulary_defs run_defs session_defs)

lemma setup_two_ok:
  "setup_ok two_env two_ctx world_ok two_request [3, 2, 1]"
  by (simp add: vocabulary_defs run_defs session_defs)

section \<open>Delivery\<close>

text \<open>
  C1, as the code has it: in a session whose set-up succeeds, \<^verbatim>\<open>HandleResharing\<close>
  delivers to the entries of \<^verbatim>\<open>alloperators\<close> in order and stops at the first
  delivery that fails (transport error or a status other than 200). When no delivery
  fails, all entries are attempted and the call returns no error. When the delivery to
  entry \<open>k\<close> is the first to fail, the call returns the error of that delivery at once:
  exactly \<open>k + 1\<close> deliveries were attempted and the entries after \<open>k\<close> are not.
\<close>

theorem delivery_stops_at_first_failure:
  assumes "setup_ok env c w request msg"
  shows "((\<forall>i<length (alloperators env). nth_delivery_answer env w request msg i = StatusCode 200) \<longrightarrow>
            fst (HandleResharing env c w) = None \<and>
            new_calls w (snd (HandleResharing env c w)) =
              topic_call env # map (consume_call request msg) (alloperators env))
       \<and> (k < length (alloperators env) \<and>
          nth_delivery_answer env w request msg k \<noteq> StatusCode 200 \<and>
          (\<forall>i<k. nth_delivery_answer env w request msg i = StatusCode 200) \<longrightarrow>
            fst (HandleResharing env c w) =
              delivery_error (nth_delivery_answer env w request msg k) (alloperators env ! k) \<and>
            fst (HandleResharing env c w) \<noteq> None \<and>
            new_calls w (snd (HandleResharing env c w)) =
              topic_call env # map (consume_call request msg) (take (Suc k) (alloperators env)))"
proof (intro conjI impI)
  assume ok: "\<forall>i<length (alloperators env). nth_delivery_answer env w request msg i = StatusCode 200"
  have run: "HandleResharing env c w =
     (None, w\<lparr>calls := calls w @ topic_call env # map (consume_call request msg) (alloperators env),
              stdout := stdout w @ [sent_line (hex_EncodeToString (requestID env))]\<rparr>)"
    using assms ok by (intro HandleResharing_all_ok) simp_all
  show "fst (HandleResharing env c w) = None"
    by (simp add: run)
  show "new_calls w (snd (HandleResharing env c w)) =
          topic_call env # map (consume_call request msg) (alloperators env)"
    by (simp add: run)
next
  assume fails: "k < length (alloperators env) \<and>
          nth_delivery_answer env w request msg k \<noteq> StatusCode 200 \<and>
          (\<forall>i<k. nth_delivery_answer env w request msg i = StatusCode 200)"
  have run: "HandleResharing env c w =
     (delivery_error (nth_delivery_answer env w request msg k) (alloperators env ! k),
      w\<lparr>calls := calls w @ topic_call env #
                  map (consume_call request msg) (take (Suc k) (alloperators env))\<rparr>)"
    using assms fails by (intro HandleResharing_first_failure) simp_all
  show "fst (HandleResharing env c w) =
          delivery_error (nth_delivery_answer env w request msg k) (alloperators env ! k)"
    by (simp add: run)
  show "fst (HandleResharing env c w) \<noteq> None"
    using fails by (simp add: run delivery_error_None)
  show "new_calls w (snd (HandleResharing env c w)) =
          topic_call env # map (consume_call request msg) (take (Suc k) (alloperators env))"
    by (simp add: run)
qed

theorem delivery_stops_at_first_failure_witness:
  "setup_ok two_env two_ctx world_ok two_request [3, 2, 1]
   \<and> fst (HandleResharing two_env two_ctx world_ok) = None
   \<and> new_calls world_ok (snd (HandleResharing two_env two_ctx world_ok)) =
       [(''http://m/topics'', TopicJSON ''ab01'' [''1'', ''2'']),
        (''http://a/consume'', Bytes [3, 2, 1]), (''http://b/consume'', Bytes [3, 2, 1])]
   \<and> setup_ok two_env two_ctx world_b_refused two_request [3, 2, 1]
   \<and> fst (HandleResharing two_env two_ctx world_b_refused) =
       Some (ErrTransport ''connection refused'')
   \<and> new_calls world_b_refused (snd (HandleResharing two_env two_ctx world_b_refused)) =
       [(''http://m/topics'', TopicJSON ''ab01'' [''1'', ''2'']),
        (''http://a/consume'', Bytes [3, 2, 1]), (''http://b/consume'', Bytes [3, 2, 1])]"
proof -
  have ok: "\<forall>i<length (alloperators two_env).
              nth_delivery_answer two_env world_ok two_request [3, 2, 1] i = StatusCode 200"
    by (simp add: vocabulary_defs session_defs)
  have fails: "1 < length (alloperators two_env) \<and>
      nth_delivery_answer two_env world_b_refused two_request [3, 2, 1] 1 \<noteq> StatusCode 200 \<and>
      (\<forall>i<1. nth_delivery_answer two_env world_b_refused two_request [3, 2, 1] i = StatusCode 200)"
    by (simp add: vocabulary_defs session_defs nodeAddress_def go_index_def)
  show ?thesis
    using delivery_stops_at_first_failure [OF setup_two_ok, of 0] ok
      delivery_stops_at_first_failure [OF setup_two_b_refused, of 1] fails
      setup_two_ok setup_two_b_refused
    by (simp add: vocabulary_defs session_defs nodeAddress_def go_index_def run_defs)
qed

text \<open>
  The claim that a failed delivery does not abort the others fails on two operators
  \<^verbatim>\<open>1=http://a\<close> and \<^verbatim>\<open>2=http://b\<close> when \<^verbatim>\<open>http://a\<close> answers 500: the call
  returns the error of operator 1 and \<^verbatim>\<open>http://b\<close> is never posted to.
\<close>

theorem all_or_nothing_counterexample:
  "length (alloperators two_env) = 2
   \<and> fst (HandleResharing two_env two_ctx world_a_500) = Some (ErrSendReshare 500 1)
   \<and> calls (snd (HandleResharing two_env two_ctx world_a_500)) =
       [(''http://m/topics'', TopicJSON ''ab01'' [''1'', ''2'']),
        (''http://a/consume'', Bytes [3, 2, 1])]"
  by (simp add: alloperators_def run_defs session_defs)

section \<open>What the caller learns\<close>

text \<open>
  C6, as the code has it: in a session whose set-up succeeds, the line with the session
  identifier is printed exactly when no delivery fails. When the delivery to entry \<open>k\<close>
  is the first to fail, nothing is printed and the caller gets the error of that one
  delivery only.
\<close>

theorem session_id_printed_only_on_success:
  assumes "setup_ok env c w request msg"
  shows "((\<forall>i<length (alloperators env). nth_delivery_answer env w request msg i = StatusCode 200) \<longrightarrow>
            fst (HandleResharing env c w) = None \<and>
            stdout (snd (HandleResharing env c w)) =
              stdout w @ [sent_line (hex_EncodeToString (requestID env))])
       \<and> (k < length (alloperators env) \<and>
          nth_delivery_answer env w request msg k \<noteq> StatusCode 200 \<and>
          (\<forall>i<k. nth_delivery_answer env w request msg i = StatusCode 200) \<longrightarrow>
            (\<exists>e. fst (HandleResharing env c w) = Some (ErrTransport e)
               \<or> (\<exists>code. fst (HandleResharing env c w) =
                     Some (ErrSendReshare code (alloperators env ! k)))) \<and>
            stdout (snd (HandleResharing env c w)) = stdout w)"
proof (intro conjI impI)
  assume ok: "\<forall>i<length (alloperators env). nth_delivery_answer env w request msg i = StatusCode 200"
  have run: "HandleResharing env c w =
     (None, w\<lparr>calls := calls w @ topic_call env # map (consume_call request msg) (alloperators env),
              stdout := stdout w @ [sent_line (hex_EncodeToString (requestID env))]\<rparr>)"
    using assms ok by (intro HandleResharing_all_ok) simp_all
  show "fst (HandleResharing env c w) = None"
    by (simp add: run)
  show "stdout (snd (HandleResharing env c w)) =
          stdout w @ [sent_line (hex_EncodeToString (requestID env))]"
    by (simp add: run)
next
  assume fails: "k < length (alloperators env) \<and>
          nth_delivery_answer env w request msg k \<noteq> StatusCode 200 \<and>
          (\<forall>i<k. nth_delivery_answer env w request msg i = StatusCode 200)"
  have run: "HandleResharing env c w =
     (delivery_error (nth_delivery_answer env w request msg k) (alloperators env ! k),
      w\<lparr>calls := calls w @ topic_call env #
                  map (consume_call request msg) (take (Suc k) (alloperators env))\<rparr>)"
    using assms fails by (intro HandleResharing_first_failure) simp_all
  show "\<exists>e. fst (HandleResharing env c w) = Some (ErrTransport e)
               \<or> (\<exists>code. fst (HandleResharing env c w) =
                     Some (ErrSendReshare code (alloperators env ! k)))"
    using fails by (auto simp add: run delivery_error_def split: http_result.splits)
  show "stdout (snd (HandleResharing env c w)) = stdout w"
    by (simp add: run)
qed

theorem session_id_printed_only_on_success_witness:
  "setup_ok two_env two_ctx world_ok two_request [3, 2, 1]
   \<and> stdout (snd (HandleResharing two_env two_ctx world_ok)) =
       [''resharing init request sent with ID: ab01'' @ [CHR 0x0A]]
   \<and> setup_ok two_env two_ctx world_b_refused two_request [3, 2, 1]
   \<and> stdout (snd (HandleResharing two_env two_ctx world_b_refused)) = []"
proof -
  have ok: "\<forall>i<length (alloperators two_env).
              nth_delivery_answer two_env world_ok two_request [3, 2, 1] i = StatusCode 200"
    by (simp add: vocabulary_defs session_defs)
  have fails: "1 < length (alloperators two_env) \<and>
      nth_delivery_answer two_env world_b_refused two_request [3, 2, 1] 1 \<noteq> StatusCode 200 \<and>
      (\<forall>i<1. nth_delivery_answer two_env world_b_refused two_request [3, 2, 1] i = StatusCode 200)"
    by (simp add: vocabulary_defs session_defs nodeAddress_def go_index_def)
  have "stdout world_ok = []" "stdout world_b_refused = []"
    "hex_EncodeToString (requestID two_env) = ''ab01''"
    by (simp_all add: session_defs hex_EncodeToString_def hex_digit_def)
  then show ?thesis
    using session_id_printed_only_on_success [OF setup_two_ok, of 0] ok
      session_id_printed_only_on_success [OF setup_two_b_refused, of 1] fails
      setup_two_ok setup_two_b_refused
    by (simp add: sent_line_def)
qed

text \<open>
  The claim that the caller always learns the session identifier fails in the scenario
  of the specification when the connection to \<^verbatim>\<open>http://b\<close> is refused: the call
  returns the transport error, which does not hold the identifier, and prints nothing.
\<close>

theorem session_id_always_learnt_counterexample:
  "fst (HandleResharing scenario_env scenario_ctx world_b_refused) =
     Some (ErrTransport ''connection refused'')
   \<and> stdout (snd (HandleResharing scenario_env scenario_ctx world_b_refused)) = []"
  by (simp add: run_defs session_defs)

section \<open>Order of the stages\<close>

lemma consume_is_no_topics_url: "\<not> suffix ''/topics'' (addr @ ''/consume'')"
proof
  assume "suffix ''/topics'' (addr @ ''/consume'')"
  then obtain zs where "addr @ ''/consume'' = zs @ ''/topics''"
    by (auto simp add: suffix_def)
  then have "last (addr @ ''/consume'') = last (zs @ ''/topics'')"
    by (rule arg_cong)
  then show False by simp
qed

lemma topic_call_is_topics_url: "suffix ''/topics'' (fst (topic_call env))"
  by (simp add: topic_call_def suffix_def)

lemma no_topics_url_among_consume_calls:
  "filter (\<lambda>call. suffix ''/topics'' (fst call)) (map (consume_call request msg) ops) = []"
  by (induction ops) (simp_all add: consume_call_def consume_is_no_topics_url)

lemma HandleResharing_calls:
  assumes "parseResharingRequest c = Inr request"
  shows "\<exists>msg n. new_calls w (snd (HandleResharing env c w)) =
           topic_call env # map (consume_call request msg) (take n (alloperators env))"
proof (cases "topic_answer env w = StatusCode 200")
  case False
  then obtain err where "HandleResharing env c w =
     (Some (ErrCreateTopic err), w\<lparr>calls := calls w @ [topic_call env]\<rparr>)"
    using HandleResharing_topic_error [OF assms] by blast
  then have "new_calls w (snd (HandleResharing env c w)) =
           topic_call env # map (consume_call request []) (take 0 (alloperators env))"
    by simp
  then show ?thesis by blast
next
  case True
  show ?thesis
  proof (cases "initMsgForResharing env request (requestID env)")
    case (Inl err)
    then have "new_calls w (snd (HandleResharing env c w)) =
           topic_call env # map (consume_call request []) (take 0 (alloperators env))"
      by (simp add: HandleResharing_initMsg_error [OF assms True])
    then show ?thesis by blast
  next
    case (Inr msg)
    let ?w1 = "w\<lparr>calls := calls w @ [topic_call env]\<rparr>"
    have stages: "setup_ok env c w request msg"
      using assms True Inr by (simp add: setup_ok_def)
    obtain n where n: "snd (deliver request msg (alloperators env) ?w1) =
        ?w1\<lparr>calls := calls ?w1 @ map (consume_call request msg) (take n (alloperators env))\<rparr>"
      using deliver_calls [of "alloperators env" request msg ?w1] by blast
    obtain r w2 where d: "deliver request msg (alloperators env) ?w1 = (r, w2)"
      by (cases "deliver request msg (alloperators env) ?w1")
    with n have w2: "w2 = w\<lparr>calls := calls w @ topic_call env #
                        map (consume_call request msg) (take n (alloperators env))\<rparr>"
      by simp
    have "new_calls w (snd (HandleResharing env c w)) =
            topic_call env # map (consume_call request msg) (take n (alloperators env))"
      by (cases r) (simp_all add: HandleResharing_deliver [OF stages] d w2)
    then show ?thesis by blast
  qed
qed

text \<open>
  C4: in every session (the request parses), the topic is requested exactly once: among
  the requests of the run exactly one goes to \<^verbatim>\<open>/topics\<close> of the messenger, and it
  is the first. If the creation of the topic fails, or the composition of the message
  fails, the call returns an error and the creation of the topic is the only request:
  no delivery is made.
\<close>

theorem topic_once_and_fatal_abort:
  assumes "parseResharingRequest c = Inr request"
  shows "length (filter (\<lambda>call. suffix ''/topics'' (fst call))
                  (new_calls w (snd (HandleResharing env c w)))) = 1
       \<and> take 1 (new_calls w (snd (HandleResharing env c w))) = [topic_call env]
       \<and> (topic_answer env w \<noteq> StatusCode 200 \<longrightarrow>
            (\<exists>err. fst (HandleResharing env c w) = Some (ErrCreateTopic err)) \<and>
            new_calls w (snd (HandleResharing env c w)) = [topic_call env])
       \<and> (topic_answer env w = StatusCode 200 \<and>
          initMsgForResharing env request (requestID env) = Inl e \<longrightarrow>
            fst (HandleResharing env c w) = Some (ErrInitMsg e) \<and>
            new_calls w (snd (HandleResharing env c w)) = [topic_call env])"
proof (intro conjI impI)
  obtain msg n where cs: "new_calls w (snd (HandleResharing env c w)) =
      topic_call env # map (consume_call request msg) (take n (alloperators env))"
    using HandleResharing_calls [OF assms] by blast
  show "length (filter (\<lambda>call. suffix ''/topics'' (fst call))
                  (new_calls w (snd (HandleResharing env c w)))) = 1"
    by (simp add: cs topic_call_is_topics_url no_topics_url_among_consume_calls)
  show "take 1 (new_calls w (snd (HandleResharing env c w))) = [topic_call env]"
    by (simp add: cs)
next
  assume "topic_answer env w \<noteq> StatusCode 200"
  then obtain err where run: "HandleResharing env c w =
     (Some (ErrCreateTopic err), w\<lparr>calls := calls w @ [topic_call env]\<rparr>)"
    using HandleResharing_topic_error [OF assms] by blast
  show "\<exists>err. fst (HandleResharing env c w) = Some (ErrCreateTopic err)"
    by (simp add: run)
  show "new_calls w (snd (HandleResharing env c w)) = [topic_call env]"
    by (simp add: run)
next
  assume "topic_answer env w = StatusCode 200 \<and>
          initMsgForResharing env request (requestID env) = Inl e"
  then have run: "HandleResharing env c w =
      (Some (ErrInitMsg e), w\<lparr>calls := calls w @ [topic_call env]\<rparr>)"
    using HandleResharing_initMsg_error [OF assms] by blast
  show "fst (HandleResharing env c w) = Some (ErrInitMsg e)"
    by (simp add: run)
  show "new_calls w (snd (HandleResharing env c w)) = [topic_call env]"
    by (simp add: run)
qed

lemma parse_one:
  "parseResharingRequest one_ctx = Inr one_request"
  by (simp add: run_defs session_defs)

lemma parse_scenario:
  "parseResharingRequest scenario_ctx = Inr scenario_request"
  by (simp add: run_defs session_defs)

theorem topic_once_and_fatal_abort_witness:
  "parseResharingRequest scenario_ctx = Inr scenario_request
   \<and> fst (HandleResharing scenario_env scenario_ctx world_500) =
       Some (ErrCreateTopic ErrCreateTopicStatus)
   \<and> new_calls world_500 (snd (HandleResharing scenario_env scenario_ctx world_500)) =
       [(''http://m/topics'', TopicJSON ''ab01'' [''1'', ''2'', ''1'', ''3''])]
   \<and> parseResharingRequest one_ctx = Inr one_request
   \<and> fst (HandleResharing outer_failing_env one_ctx world_ok) =
       Some (ErrInitMsg (ErrEncoding ''ssv message''))
   \<and> new_calls world_ok (snd (HandleResharing outer_failing_env one_ctx world_ok)) =
       [(''http://m/topics'', TopicJSON ''ab01'' [''1''])]
   \<and> length (filter (\<lambda>call. suffix ''/topics'' (fst call))
        (new_calls world_ok (snd (HandleResharing scenario_env scenario_ctx world_ok)))) = 1"
proof -
  have topic_fails: "topic_answer scenario_env world_500 \<noteq> StatusCode 200"
    by (simp add: topic_answer_def session_defs)
  have composition_fails: "topic_answer outer_failing_env world_ok = StatusCode 200 \<and>
      initMsgForResharing outer_failing_env one_request (requestID outer_failing_env) =
       Inl (ErrEncoding ''ssv message'')"
    by (simp add: topic_answer_def session_defs initMsgForResharing_def fromHexChar_def)
  have calls: "topic_call scenario_env = (''http://m/topics'', TopicJSON ''ab01'' [''1'', ''2'', ''1'', ''3''])"
    "topic_call outer_failing_env = (''http://m/topics'', TopicJSON ''ab01'' [''1''])"
    by (simp_all add: vocabulary_defs run_defs session_defs)
  have "fst (HandleResharing scenario_env scenario_ctx world_500) =
       Some (ErrCreateTopic ErrCreateTopicStatus)"
    by (simp add: run_defs session_defs)
  then show ?thesis
    using topic_once_and_fatal_abort [OF parse_scenario, of world_500 scenario_env] topic_fails
      topic_once_and_fatal_abort [OF parse_one, of world_ok outer_failing_env
        "ErrEncoding ''ssv message''"] composition_fails
      topic_once_and_fatal_abort [OF parse_scenario, of world_ok scenario_env]
      parse_scenario parse_one calls
    by simp
qed

section \<open>The validator public key\<close>

lemma hex_DecodeString_valid: "(\<exists>bs. hex_DecodeString s = Inr bs) \<longleftrightarrow> valid_hex s"
proof (induction s rule: hex_DecodeString.induct)
  case 1
  then show ?case by (simp add: valid_hex_def)
next
  case (2 p)
  then show ?case by (simp add: valid_hex_def split: option.splits)
next
  case (3 p q rest)
  show ?case
  proof (cases "fromHexChar p")
    case None
    then show ?thesis by (simp add: valid_hex_def)
  next
    case a: (Some a)
    show ?thesis
    proof (cases "fromHexChar q")
      case None
      with a show ?thesis by (simp add: valid_hex_def)
    next
      case b: (Some b)
      have "(\<exists>bs. hex_DecodeString rest = Inr bs) \<longleftrightarrow> valid_hex rest"
        using a b by (rule "3.IH")
      with a b show ?thesis
        by (cases "hex_DecodeString rest") (simp_all add: valid_hex_def)
    qed
  qed
qed

lemma hex_DecodeString_invalid: "\<not> valid_hex s \<Longrightarrow> \<exists>e. hex_DecodeString s = Inl e"
  using hex_DecodeString_valid [of s] by (cases "hex_DecodeString s") auto

lemma parse_operators_accepted:
  "list_all accepted_spec ops \<Longrightarrow> \<exists>m'. parse_operators ops m = Inr m'"
proof (induction ops arbitrary: m)
  case Nil
  then show ?case by simp
next
  case (Cons op ops)
  from Cons.prems obtain k v n where
    "strings_Split (strings_Trim op) (CHR ''='') = [k, v]" "strconv_Atoi k = Inr n"
    by (auto simp add: accepted_spec_def split: list.splits sum.splits)
  moreover have "\<exists>m'. parse_operators ops (m(word_of_int n \<mapsto> v)) = Inr m'"
    using Cons.prems by (intro Cons.IH) simp
  ultimately show ?case by simp
qed

lemma parseResharingRequest_accepted:
  assumes "list_all accepted_spec (flag_operator c @ flag_old_operator c)"
  shows "\<exists>request. parseResharingRequest c = Inr request \<and>
           ValidatorPK request = flag_validator_pk c"
proof -
  obtain ops where "parse_operators (flag_operator c) Map.empty = Inr ops"
    using assms parse_operators_accepted [of "flag_operator c" Map.empty] by auto
  moreover obtain opsOld where "parse_operators (flag_old_operator c) Map.empty = Inr opsOld"
    using assms parse_operators_accepted [of "flag_old_operator c" Map.empty] by auto
  ultimately show ?thesis
    by (simp add: parseResharingRequest_def)
qed

text \<open>
  C2, as the code has it: when the operator specifications are accepted and the
  validator public key is no valid hexadecimal string, the parsing of the request
  succeeds, for it does not look at the key. The topic is then requested from the
  messenger, and only the composition of the message decodes the key: if the creation
  of the topic succeeded the call fails there with the error of the decoder, otherwise
  with the error of the topic. In both cases the creation of the topic is the only
  request of the run: no delivery is attempted.
\<close>

theorem invalid_key_fails_after_topic_creation:
  assumes "list_all accepted_spec (flag_operator c @ flag_old_operator c)"
    and "\<not> valid_hex (flag_validator_pk c)"
  shows "(\<exists>request. parseResharingRequest c = Inr request)
       \<and> new_calls w (snd (HandleResharing env c w)) = [topic_call env]
       \<and> (topic_answer env w = StatusCode 200 \<longrightarrow>
            (\<exists>e. fst (HandleResharing env c w) = Some (ErrInitMsg (ErrHex e))))
       \<and> (topic_answer env w \<noteq> StatusCode 200 \<longrightarrow>
            (\<exists>err. fst (HandleResharing env c w) = Some (ErrCreateTopic err)))"
proof -
  obtain request where parse: "parseResharingRequest c = Inr request"
    and key: "ValidatorPK request = flag_validator_pk c"
    using parseResharingRequest_accepted [OF assms(1)] by blast
  obtain e where "hex_DecodeString (ValidatorPK request) = Inl e"
    using hex_DecodeString_invalid [OF assms(2)] key by auto
  then have composition: "initMsgForResharing env request (requestID env) = Inl (ErrHex e)"
    by (simp add: initMsgForResharing_def)
  show ?thesis
  proof (cases "topic_answer env w = StatusCode 200")
    case True
    then have "HandleResharing env c w =
        (Some (ErrInitMsg (ErrHex e)), w\<lparr>calls := calls w @ [topic_call env]\<rparr>)"
      using parse composition by (intro HandleResharing_initMsg_error)
    with parse True show ?thesis by simp
  next
    case False
    then obtain err where "HandleResharing env c w =
        (Some (ErrCreateTopic err), w\<lparr>calls := calls w @ [topic_call env]\<rparr>)"
      using HandleResharing_topic_error [OF parse] by blast
    with parse False show ?thesis by simp
  qed
qed

theorem invalid_key_fails_after_topic_creation_witness:
  "list_all accepted_spec (flag_operator zz_ctx @ flag_old_operator zz_ctx)
   \<and> \<not> valid_hex (flag_validator_pk zz_ctx)
   \<and> new_calls world_ok (snd (HandleResharing one_env zz_ctx world_ok)) =
       [(''http://m/topics'', TopicJSON ''ab01'' [''1''])]
   \<and> fst (HandleResharing one_env zz_ctx world_ok) =
       Some (ErrInitMsg (ErrHex (InvalidByteError (CHR ''z''))))"
proof -
  have accepted: "list_all accepted_spec (flag_operator zz_ctx @ flag_old_operator zz_ctx)"
    by (simp add: accepted_spec_def run_defs session_defs)
  have invalid: "\<not> valid_hex (flag_validator_pk zz_ctx)"
    by (simp add: valid_hex_def fromHexChar_def session_defs)
  have "topic_call one_env = (''http://m/topics'', TopicJSON ''ab01'' [''1''])"
    by (simp add: vocabulary_defs run_defs session_defs)
  moreover have "fst (HandleResharing one_env zz_ctx world_ok) =
       Some (ErrInitMsg (ErrHex (InvalidByteError (CHR ''z''))))"
    by (simp add: run_defs session_defs)
  ultimately show ?thesis
    using invalid_key_fails_after_topic_creation [OF accepted invalid, of world_ok one_env]
      accepted invalid
    by simp
qed

text \<open>
  The claim that an invalid key fails during parsing, before any network call, fails
  for the operator \<^verbatim>\<open>1=http://a\<close> and the key \<^verbatim>\<open>zz\<close>: the request parses, and
  the topic has been requested from the messenger when the call fails.
\<close>

theorem invalid_key_no_topic_counterexample:
  "parseResharingRequest zz_ctx =
     Inr \<lparr>Operators = [1 \<mapsto> ''http://a''], Threshold = 1, ValidatorPK = ''zz'',
          OperatorsOld = Map.empty\<rparr>
   \<and> calls (snd (HandleResharing one_env zz_ctx world_ok)) =
       [(''http://m/topics'', TopicJSON ''ab01'' [''1''])]"
  by (simp add: run_defs session_defs)

section \<open>The subscribers of the topic\<close>

lemma count_list_distinct:
  "distinct xs \<Longrightarrow> count_list xs x = (if x \<in> set xs then 1 else 0)"
  by (induction xs) auto

text \<open>
  C3, as the code has it: the subscribers of the topic are the IDs of the new operator
  map followed by the IDs of the old operator map, each as a decimal string. As a set
  the list holds the union of the two sets of IDs, and an ID of both maps is in it
  twice. When the set-up succeeds and no delivery fails, the message is delivered once
  per entry of that list, in its order: twice to an operator of both maps.
\<close>

theorem subscribers_are_new_then_old:
  assumes "parseResharingRequest c = Inr request"
    and "newOperators request (range_Operators env)"
    and "oldOperators request (range_OperatorsOld env)"
  shows "take 1 (new_calls w (snd (HandleResharing env c w))) =
           [(NewMessengerClient (MessengerAddrFromEnv env) @ ''/topics'',
             TopicJSON (hex_EncodeToString (requestID env))
               (map (\<lambda>operatorID. strconv_Itoa (sint operatorID))
                  (range_Operators env @ range_OperatorsOld env)))]
       \<and> set (range_Operators env @ range_OperatorsOld env) =
           dom (Operators request) \<union> dom (OperatorsOld request)
       \<and> count_list (range_Operators env @ range_OperatorsOld env) operatorID =
           (if operatorID \<in> dom (Operators request) then 1 else 0) +
           (if operatorID \<in> dom (OperatorsOld request) then 1 else 0)
       \<and> (topic_answer env w = StatusCode 200 \<and>
          initMsgForResharing env request (requestID env) = Inr msg \<and>
          (\<forall>i<length (alloperators env). nth_delivery_answer env w request msg i = StatusCode 200) \<longrightarrow>
            drop 1 (new_calls w (snd (HandleResharing env c w))) =
              map (consume_call request msg) (range_Operators env @ range_OperatorsOld env))"
proof (intro conjI impI)
  obtain msg' n where "new_calls w (snd (HandleResharing env c w)) =
      topic_call env # map (consume_call request msg') (take n (alloperators env))"
    using HandleResharing_calls [OF assms(1)] by blast
  then show "take 1 (new_calls w (snd (HandleResharing env c w))) =
           [(NewMessengerClient (MessengerAddrFromEnv env) @ ''/topics'',
             TopicJSON (hex_EncodeToString (requestID env))
               (map (\<lambda>operatorID. strconv_Itoa (sint operatorID))
                  (range_Operators env @ range_OperatorsOld env)))]"
    by (simp add: topic_call_def alloperators_def)
next
  show "set (range_Operators env @ range_OperatorsOld env) =
           dom (Operators request) \<union> dom (OperatorsOld request)"
    using assms(2,3) by (simp add: newOperators_def oldOperators_def map_range_def)
next
  show "count_list (range_Operators env @ range_OperatorsOld env) operatorID =
           (if operatorID \<in> dom (Operators request) then 1 else 0) +
           (if operatorID \<in> dom (OperatorsOld request) then 1 else 0)"
    using assms(2,3)
    by (simp add: newOperators_def oldOperators_def map_range_def count_list_distinct)
next
  assume ok: "topic_answer env w = StatusCode 200 \<and>
          initMsgForResharing env request (requestID env) = Inr msg \<and>
          (\<forall>i<length (alloperators env). nth_delivery_answer env w request msg i = StatusCode 200)"
  then have "setup_ok env c w request msg"
    using assms(1) by (simp add: setup_ok_def)
  then have "HandleResharing env c w =
     (None, w\<lparr>calls := calls w @ topic_call env # map (consume_call request msg) (alloperators env),
              stdout := stdout w @ [sent_line (hex_EncodeToString (requestID env))]\<rparr>)"
    using ok by (intro HandleResharing_all_ok) simp_all
  then show "drop 1 (new_calls w (snd (HandleResharing env c w))) =
              map (consume_call request msg) (range_Operators env @ range_OperatorsOld env)"
    by (simp add: alloperators_def)
qed

theorem subscribers_are_new_then_old_witness:
  "parseResharingRequest scenario_ctx = Inr scenario_request
   \<and> newOperators scenario_request (range_Operators scenario_env)
   \<and> oldOperators scenario_request (range_OperatorsOld scenario_env)
   \<and> take 1 (new_calls world_ok (snd (HandleResharing scenario_env scenario_ctx world_ok))) =
       [(''http://m/topics'', TopicJSON ''ab01'' [''1'', ''2'', ''1'', ''3''])]
   \<and> count_list (range_Operators scenario_env @ range_OperatorsOld scenario_env) 1 = 2
   \<and> drop 1 (new_calls world_ok (snd (HandleResharing scenario_env scenario_ctx world_ok))) =
       [(''http://a/consume'', Bytes [3, 2, 1]), (''http://b/consume'', Bytes [3, 2, 1]),
        (''http://a/consume'', Bytes [3, 2, 1]), (''http://c/consume'', Bytes [3, 2, 1])]"
proof -
  have new: "newOperators scenario_request (range_Operators scenario_env)"
    by (auto simp add: newOperators_def map_range_def session_defs)
  have old: "oldOperators scenario_request (range_OperatorsOld scenario_env)"
    by (auto simp add: oldOperators_def map_range_def session_defs)
  have ok: "topic_answer scenario_env world_ok = StatusCode 200 \<and>
      initMsgForResharing scenario_env scenario_request (requestID scenario_env) = Inr [3, 2, 1] \<and>
      (\<forall>i<length (alloperators scenario_env).
         nth_delivery_answer scenario_env world_ok scenario_request [3, 2, 1] i = StatusCode 200)"
    by (simp add: vocabulary_defs session_defs initMsgForResharing_def fromHexChar_def)
  have evals: "hex_EncodeToString (requestID scenario_env) = ''ab01''"
    "map (\<lambda>operatorID. strconv_Itoa (sint operatorID))
       (range_Operators scenario_env @ range_OperatorsOld scenario_env) = [''1'', ''2'', ''1'', ''3'']"
    "NewMessengerClient (MessengerAddrFromEnv scenario_env) = ''http://m''"
    "map (consume_call scenario_request [3, 2, 1])
       (range_Operators scenario_env @ range_OperatorsOld scenario_env) =
     [(''http://a/consume'', Bytes [3, 2, 1]), (''http://b/consume'', Bytes [3, 2, 1]),
      (''http://a/consume'', Bytes [3, 2, 1]), (''http://c/consume'', Bytes [3, 2, 1])]"
    "dom (Operators scenario_request) = {1, 2}" "dom (OperatorsOld scenario_request) = {1, 3}"
    by (auto simp add: vocabulary_defs run_defs session_defs)
  show ?thesis
    using subscribers_are_new_then_old [OF parse_scenario new old, of world_ok 1 "[3, 2, 1]"]
      parse_scenario new old ok evals
    by simp
qed

text \<open>
  The claim that the subscriber list has no duplicates and that every operator is
  delivered to once fails in the scenario of the specification: operator 1, of both
  maps, is subscribed twice and \<^verbatim>\<open>http://a\<close> receives the message twice.
\<close>

theorem union_without_duplicates_counterexample:
  "calls (snd (HandleResharing scenario_env scenario_ctx world_ok)) =
     [(''http://m/topics'', TopicJSON ''ab01'' [''1'', ''2'', ''1'', ''3'']),
      (''http://a/consume'', Bytes [3, 2, 1]), (''http://b/consume'', Bytes [3, 2, 1]),
      (''http://a/consume'', Bytes [3, 2, 1]), (''http://c/consume'', Bytes [3, 2, 1])]"
  by (simp add: run_defs session_defs)

section \<open>Composition of the message\<close>

lemma initMsgForResharing_error:
  assumes "initMsgForResharing env request reqID = Inl e"
  shows "(\<exists>he. hex_DecodeString (ValidatorPK request) = Inl he \<and> e = ErrHex he)
       \<or> (\<exists>byts b. SSVMessage_Encode env byts = (b, Some e))"
proof (cases "hex_DecodeString (ValidatorPK request)")
  case (Inl he)
  with assms show ?thesis by (simp add: initMsgForResharing_def)
next
  case (Inr vk)
  with assms show ?thesis
    by (auto simp add: initMsgForResharing_def Let_def split: prod.splits option.splits)
qed

lemma initMsgForResharing_errors_dropped:
  "initMsgForResharing
     (env\<lparr>Reshare_Encode := \<lambda>args. (fst (Reshare_Encode env args), None),
          SignedMessage_Encode :=
            \<lambda>ident data. (fst (SignedMessage_Encode env ident data), None)\<rparr>) request reqID =
   initMsgForResharing env request reqID"
  by (simp add: initMsgForResharing_def split: sum.splits)

text \<open>
  C8, as the code has it: every error \<^verbatim>\<open>initMsgForResharing\<close> returns makes the
  operation fail with the composition error, the creation of the topic being the only
  request made: no delivery is attempted. \<^verbatim>\<open>initMsgForResharing\<close> returns an error
  only for a key that does not decode and for an error of the encoder of the outer
  envelope. The errors of the encoder of the reshare parameters and of the encoder of
  the signed envelope are dropped: a run is the same as with encoders that return the
  same bytes and no error.
\<close>

theorem composition_errors_abort_or_are_dropped:
  assumes "parseResharingRequest c = Inr request"
    and "topic_answer env w = StatusCode 200"
  shows "(initMsgForResharing env request (requestID env) = Inl e \<longrightarrow>
            fst (HandleResharing env c w) = Some (ErrInitMsg e) \<and>
            new_calls w (snd (HandleResharing env c w)) = [topic_call env])
       \<and> (initMsgForResharing env request (requestID env) = Inl e \<longrightarrow>
            (\<exists>he. hex_DecodeString (ValidatorPK request) = Inl he \<and> e = ErrHex he) \<or>
            (\<exists>byts b. SSVMessage_Encode env byts = (b, Some e)))
       \<and> HandleResharing
            (env\<lparr>Reshare_Encode := \<lambda>args. (fst (Reshare_Encode env args), None),
                 SignedMessage_Encode :=
                   \<lambda>ident data. (fst (SignedMessage_Encode env ident data), None)\<rparr>) c w =
          HandleResharing env c w"
proof (intro conjI impI)
  assume failed: "initMsgForResharing env request (requestID env) = Inl e"
  have run: "HandleResharing env c w =
      (Some (ErrInitMsg e), w\<lparr>calls := calls w @ [topic_call env]\<rparr>)"
    using assms failed by (rule HandleResharing_initMsg_error)
  show "fst (HandleResharing env c w) = Some (ErrInitMsg e)"
    by (simp add: run)
  show "new_calls w (snd (HandleResharing env c w)) = [topic_call env]"
    by (simp add: run)
  show "(\<exists>he. hex_DecodeString (ValidatorPK request) = Inl he \<and> e = ErrHex he) \<or>
        (\<exists>byts b. SSVMessage_Encode env byts = (b, Some e))"
    using failed by (rule initMsgForResharing_error)
next
  show "HandleResharing
            (env\<lparr>Reshare_Encode := \<lambda>args. (fst (Reshare_Encode env args), None),
                 SignedMessage_Encode :=
                   \<lambda>ident data. (fst (SignedMessage_Encode env ident data), None)\<rparr>) c w =
          HandleResharing env c w"
    by (simp add: HandleResharing_def initMsgForResharing_errors_dropped Let_def
        split: sum.splits prod.splits option.splits)
qed

theorem composition_errors_abort_or_are_dropped_witness:
  "parseResharingRequest one_ctx = Inr one_request
   \<and> topic_answer outer_failing_env world_ok = StatusCode 200
   \<and> initMsgForResharing outer_failing_env one_request (requestID outer_failing_env) =
       Inl (ErrEncoding ''ssv message'')
   \<and> fst (HandleResharing outer_failing_env one_ctx world_ok) =
       Some (ErrInitMsg (ErrEncoding ''ssv message''))
   \<and> new_calls world_ok (snd (HandleResharing outer_failing_env one_ctx world_ok)) =
       [(''http://m/topics'', TopicJSON ''ab01'' [''1''])]"
proof -
  have topic: "topic_answer outer_failing_env world_ok = StatusCode 200"
    by (simp add: topic_answer_def session_defs)
  have failed: "initMsgForResharing outer_failing_env one_request (requestID outer_failing_env) =
       Inl (ErrEncoding ''ssv message'')"
    by (simp add: session_defs initMsgForResharing_def fromHexChar_def)
  have "topic_call outer_failing_env = (''http://m/topics'', TopicJSON ''ab01'' [''1''])"
    by (simp add: vocabulary_defs run_defs session_defs)
  then show ?thesis
    using composition_errors_abort_or_are_dropped
      [OF parse_one topic, of "ErrEncoding ''ssv message''"] parse_one topic failed
    by simp
qed

text \<open>
  The claim that no error of an intermediate encoding step is discarded fails for the
  operator \<^verbatim>\<open>1=http://a\<close> when the encoder of the reshare parameters and the encoder
  of the signed envelope both return an error: the call returns no error and the
  message, built from the bytes they returned, is delivered.
\<close>

theorem encoding_error_discarded_counterexample:
  "snd (Reshare_Encode failing_encoders_env
          \<lparr>rs_operators = [1], rs_threshold = 1, rs_validatorPK = [0xab, 0x12],
           rs_operatorsOld = []\<rparr>) = Some (ErrEncoding ''reshare'')
   \<and> fst (HandleResharing failing_encoders_env one_ctx world_ok) = None
   \<and> calls (snd (HandleResharing failing_encoders_env one_ctx world_ok)) =
       [(''http://m/topics'', TopicJSON ''ab01'' [''1'']), (''http://a/consume'', Bytes [3])]"
  by (simp add: run_defs session_defs)

section \<open>What \<^verbatim>\<open>strings.Split\<close> and \<^verbatim>\<open>strconv.Atoi\<close> accept\<close>

text \<open>
  A string splits into two parts exactly when it holds the separator once, and
  \<^verbatim>\<open>Atoi\<close> returns a number exactly for the decimal literals, signed or not, whose
  value is in the range of a signed 64-bit integer.
\<close>

lemma strings_Split_length: "length (strings_Split s sep) = Suc (count_list s sep)"
  by (induction s) (auto split: list.splits)

lemma digit_val_range: "is_digit c \<Longrightarrow> 0 \<le> digit_val c \<and> digit_val c \<le> 9"
  by (simp add: is_digit_def digit_val_def)

lemma digits_grow:
  "list_all is_digit ds \<Longrightarrow> 0 \<le> n \<Longrightarrow> n \<le> foldl (\<lambda>n c. n * 10 + digit_val c) n ds"
proof (induction ds arbitrary: n)
  case Nil
  then show ?case by simp
next
  case (Cons c cs)
  then have d: "0 \<le> digit_val c" using digit_val_range by simp
  with Cons.prems have "n \<le> n * 10 + digit_val c" by simp
  also have "\<dots> \<le> foldl (\<lambda>n c. n * 10 + digit_val c) (n * 10 + digit_val c) cs"
    using Cons.prems d by (intro Cons.IH) simp_all
  finally show ?case by simp
qed

lemma parseUint_loop_digits:
  "list_all is_digit ds \<Longrightarrow> 0 \<le> n \<Longrightarrow> n \<le> maxUint64 \<Longrightarrow>
   parseUint_loop n ds =
     (if foldl (\<lambda>n c. n * 10 + digit_val c) n ds \<le> maxUint64
      then Inr (foldl (\<lambda>n c. n * 10 + digit_val c) n ds) else Inl ErrRange)"
proof (induction ds arbitrary: n)
  case Nil
  then show ?case by simp
next
  case (Cons c cs)
  let ?n1 = "n * 10 + digit_val c"
  have d: "0 \<le> digit_val c" "digit_val c \<le> 9" "is_digit c"
    using Cons.prems digit_val_range by simp_all
  have grow: "?n1 \<le> foldl (\<lambda>n c. n * 10 + digit_val c) ?n1 cs"
    using Cons.prems d by (intro digits_grow) simp_all
  show ?case
  proof (cases "n \<ge> maxUint64 div 10 + 1 \<or> ?n1 > maxUint64")
    case True
    then have "?n1 > maxUint64"
      using d Cons.prems(2) by (auto simp add: maxUint64_def)
    with grow True d show ?thesis by auto
  next
    case False
    have "parseUint_loop ?n1 cs =
       (if foldl (\<lambda>n c. n * 10 + digit_val c) ?n1 cs \<le> maxUint64
        then Inr (foldl (\<lambda>n c. n * 10 + digit_val c) ?n1 cs) else Inl ErrRange)"
      using Cons.prems d False by (intro Cons.IH) simp_all
    with False d show ?thesis by simp
  qed
qed

lemma parseUint_loop_no_digits:
  "\<not> list_all is_digit ds \<Longrightarrow> \<exists>e. parseUint_loop n ds = Inl e"
  by (induction ds arbitrary: n) auto

lemma strconv_ParseUint_digits:
  "ds \<noteq> [] \<Longrightarrow> list_all is_digit ds \<Longrightarrow>
   strconv_ParseUint ds =
     (if decimal_value ds \<le> maxUint64 then Inr (decimal_value ds) else Inl ErrRange)"
  by (simp add: strconv_ParseUint_def decimal_value_def parseUint_loop_digits maxUint64_def)

lemma strconv_ParseUint_no_digits:
  "\<not> (ds \<noteq> [] \<and> list_all is_digit ds) \<Longrightarrow> \<exists>e. strconv_ParseUint ds = Inl e"
  using parseUint_loop_no_digits [of ds 0] by (auto simp add: strconv_ParseUint_def)

lemma decimal_value_nonneg: "list_all is_digit ds \<Longrightarrow> 0 \<le> decimal_value ds"
  unfolding decimal_value_def using digits_grow [of ds 0] by simp

lemma strconv_Atoi_literal: "strconv_Atoi s = Inr n \<longleftrightarrow> int_literal s = Some n"
proof (cases s)
  case Nil
  then show ?thesis by (simp add: strconv_Atoi_def int_literal_def)
next
  case (Cons c cs)
  define ds where "ds = (if c = CHR ''+'' \<or> c = CHR ''-'' then cs else s)"
  define neg where "neg \<longleftrightarrow> c = CHR ''-''"
  have atoi: "strconv_Atoi s =
     (case strconv_ParseUint ds of
        Inl ErrSyntax \<Rightarrow> Inl ErrSyntax
      | r \<Rightarrow>
          (let un = (case r of Inr u \<Rightarrow> u | Inl _ \<Rightarrow> maxUint64)
           in if \<not> neg \<and> un \<ge> 2 ^ 63 then Inl ErrRange
              else if neg \<and> un > 2 ^ 63 then Inl ErrRange
              else Inr (if neg then - un else un)))"
    unfolding strconv_Atoi_def Cons ds_def neg_def Let_def list.case ..
  have literal: "int_literal s =
     (let v = (if neg then - decimal_value ds else decimal_value ds)
      in if ds \<noteq> [] \<and> list_all is_digit ds \<and> - (2 ^ 63) \<le> v \<and> v < 2 ^ 63
         then Some v else None)"
    unfolding int_literal_def Cons ds_def neg_def Let_def list.case ..
  show ?thesis
  proof (cases "ds \<noteq> [] \<and> list_all is_digit ds")
    case True
    then have v: "0 \<le> decimal_value ds"
      using decimal_value_nonneg by simp
    have p: "strconv_ParseUint ds =
        (if decimal_value ds \<le> maxUint64 then Inr (decimal_value ds) else Inl ErrRange)"
      using True by (intro strconv_ParseUint_digits) simp_all
    show ?thesis
      using True v by (cases neg) (auto simp add: atoi literal p Let_def maxUint64_def)
  next
    case False
    then obtain e where e: "strconv_ParseUint ds = Inl e"
      using strconv_ParseUint_no_digits by blast
    have "strconv_Atoi s \<noteq> Inr n"
      using e by (cases e; cases neg) (simp_all add: atoi Let_def maxUint64_def)
    moreover have "int_literal s = None"
      using False by (auto simp add: literal Let_def)
    ultimately show ?thesis by simp
  qed
qed

section \<open>Operator specifications\<close>

lemma parse_operators_not_pair:
  "length (strings_Split (strings_Trim t) (CHR ''='')) \<noteq> 2 \<Longrightarrow>
   parse_operators (t # post) m = Inl (ErrNotKeyValue (strings_Trim t))"
  by (simp add: Let_def)

lemma parse_operators_bad_id:
  "strings_Split (strings_Trim t) (CHR ''='') = [k, v] \<Longrightarrow> strconv_Atoi k = Inl ne \<Longrightarrow>
   parse_operators (t # post) m = Inl (ErrAtoi k ne)"
  by (simp add: Let_def)

lemma parse_operators_skip:
  "list_all accepted_spec pre \<Longrightarrow> \<exists>m'. parse_operators (pre @ rest) m = parse_operators rest m'"
proof (induction pre arbitrary: m)
  case Nil
  then show ?case by auto
next
  case (Cons op pre)
  from Cons.prems obtain k v n where
    "strings_Split (strings_Trim op) (CHR ''='') = [k, v]" "strconv_Atoi k = Inr n"
    by (auto simp add: accepted_spec_def split: list.splits sum.splits)
  moreover have "\<exists>m'. parse_operators (pre @ rest) (m(word_of_int n \<mapsto> v)) =
      parse_operators rest m'"
    using Cons.prems by (intro Cons.IH) simp
  ultimately show ?case by simp
qed

lemma parseResharingRequest_first_error:
  assumes split: "flag_operator c @ flag_old_operator c = pre @ t # post"
    and pre: "list_all accepted_spec pre"
    and t: "\<And>rest m. parse_operators (t # rest) m = Inl e"
  shows "parseResharingRequest c = Inl e"
proof -
  from split obtain us where
    "flag_operator c = pre @ us \<and> us @ flag_old_operator c = t # post
     \<or> flag_operator c @ us = pre \<and> flag_old_operator c = us @ t # post"
    by (auto simp add: append_eq_append_conv2)
  then consider
      (new) rest where "flag_operator c = pre @ t # rest"
    | (old) us where "flag_operator c @ us = pre" "flag_old_operator c = us @ t # post"
    by (cases us) auto
  then show ?thesis
  proof cases
    case new
    obtain m' where "parse_operators (pre @ t # rest) Map.empty = parse_operators (t # rest) m'"
      using parse_operators_skip [OF pre] by blast
    with new t show ?thesis
      by (simp add: parseResharingRequest_def)
  next
    case old
    from old(1) pre have accepted: "list_all accepted_spec (flag_operator c)" "list_all accepted_spec us"
      by auto
    obtain ops where "parse_operators (flag_operator c) Map.empty = Inr ops"
      using parse_operators_accepted [OF accepted(1)] by blast
    moreover obtain m' where
      "parse_operators (us @ t # post) Map.empty = parse_operators (t # post) m'"
      using parse_operators_skip [OF accepted(2)] by blast
    ultimately show ?thesis
      using old(2) t by (simp add: parseResharingRequest_def)
  qed
qed

lemma pair_of_length_2: "length pair = 2 \<Longrightarrow> pair = [pair ! 0, pair ! 1]"
  by (cases pair; cases "tl pair") auto

lemma parse_operators_Cons_Inr:
  assumes "parse_operators (op # ops) m = Inr m'"
  obtains k v n where "strings_Split (strings_Trim op) (CHR ''='') = [k, v]"
    and "strconv_Atoi k = Inr n"
    and "parse_operators ops (m(word_of_int n \<mapsto> v)) = Inr m'"
proof -
  let ?pair = "strings_Split (strings_Trim op) (CHR ''='')"
  from assms have len: "length ?pair = 2"
    by (simp add: Let_def split: if_splits)
  with assms obtain n where n: "strconv_Atoi (?pair ! 0) = Inr n"
    and rest: "parse_operators ops (m(word_of_int n \<mapsto> ?pair ! 1)) = Inr m'"
    by (auto simp add: Let_def split: sum.splits)
  from len have "?pair = [?pair ! 0, ?pair ! 1]"
    by (rule pair_of_length_2)
  with n rest show ?thesis
    by (intro that [of "?pair ! 0" "?pair ! 1" n]) simp_all
qed

lemma parse_operators_append_Inr:
  "parse_operators (xs @ ys) m = Inr m' \<Longrightarrow>
   \<exists>m1. parse_operators xs m = Inr m1 \<and> parse_operators ys m1 = Inr m'"
proof (induction xs arbitrary: m)
  case Nil
  then show ?case by simp
next
  case (Cons op xs)
  from Cons.prems have "parse_operators (op # (xs @ ys)) m = Inr m'" by simp
  then obtain k v n where op: "strings_Split (strings_Trim op) (CHR ''='') = [k, v]"
    "strconv_Atoi k = Inr n"
    and rest: "parse_operators (xs @ ys) (m(word_of_int n \<mapsto> v)) = Inr m'"
    by (rule parse_operators_Cons_Inr)
  from Cons.IH [OF rest] op show ?case by (simp add: fun_upd_def)
qed

lemma parse_operators_untouched:
  "parse_operators ops m = Inr m' \<Longrightarrow>
   list_all (\<lambda>t'. spec_operatorID t' \<noteq> Some x) ops \<Longrightarrow> m' x = m x"
proof (induction ops arbitrary: m)
  case Nil
  then show ?case by simp
next
  case (Cons op ops)
  from Cons.prems(1) obtain k v n where op: "strings_Split (strings_Trim op) (CHR ''='') = [k, v]"
    "strconv_Atoi k = Inr n"
    and rest: "parse_operators ops (m(word_of_int n \<mapsto> v)) = Inr m'"
    by (rule parse_operators_Cons_Inr)
  from op Cons.prems(2) have "word_of_int n \<noteq> x"
    by (auto simp add: spec_operatorID_def)
  moreover have "m' x = (m(word_of_int n \<mapsto> v)) x"
    using rest Cons.prems(2) by (intro Cons.IH) (simp_all add: fun_upd_def)
  ultimately show ?case by simp
qed

lemma parse_operators_keeps_keys:
  "parse_operators ops m = Inr m' \<Longrightarrow> m x \<noteq> None \<Longrightarrow> m' x \<noteq> None"
proof (induction ops arbitrary: m)
  case Nil
  then show ?case by simp
next
  case (Cons op ops)
  from Cons.prems(1) obtain k v n where
    rest: "parse_operators ops (m(word_of_int n \<mapsto> v)) = Inr m'"
    by (rule parse_operators_Cons_Inr)
  show ?case
    using rest Cons.prems(2)
    by (intro Cons.IH [of "m(word_of_int n \<mapsto> v)"]) (simp_all add: fun_upd_def)
qed

lemma parse_operators_stores:
  assumes "parse_operators (pre @ t # rest) m = Inr m'"
    and "strings_Split (strings_Trim t) (CHR ''='') = [k, v]"
    and "strconv_Atoi k = Inr n"
  shows "m' (word_of_int n) \<noteq> None"
    and "list_all (\<lambda>t'. spec_operatorID t' \<noteq> Some (word_of_int n)) rest \<Longrightarrow>
         m' (word_of_int n) = Some v"
proof -
  obtain m1 where "parse_operators (t # rest) m1 = Inr m'"
    using parse_operators_append_Inr [OF assms(1)] by blast
  then have rest: "parse_operators rest (m1(word_of_int n \<mapsto> v)) = Inr m'"
    using assms(2,3) by (simp add: Let_def)
  show "m' (word_of_int n) \<noteq> None"
    using rest by (rule parse_operators_keeps_keys) simp
  show "m' (word_of_int n) = Some v"
    if "list_all (\<lambda>t'. spec_operatorID t' \<noteq> Some (word_of_int n)) rest"
    using parse_operators_untouched [OF rest that] by simp
qed

lemma parseResharingRequest_Inr:
  "parseResharingRequest c = Inr request \<Longrightarrow>
   parse_operators (flag_operator c) Map.empty = Inr (Operators request) \<and>
   parse_operators (flag_old_operator c) Map.empty = Inr (OperatorsOld request)"
  by (auto simp add: parseResharingRequest_def split: sum.splits)

lemma strconv_Atoi_range: "strconv_Atoi s = Inr n \<Longrightarrow> - (2 ^ 63) \<le> n \<and> n < 2 ^ 63"
  by (auto simp add: strconv_Atoi_literal int_literal_def Let_def split: list.splits if_splits)

lemma negative_wraps:
  assumes "- (2 ^ 63) \<le> n" and "n < 0"
  shows "uint (word_of_int n :: OperatorID) = 2 ^ 64 + n"
proof -
  have "n mod 2 ^ 64 = (n + 2 ^ 64) mod 2 ^ 64"
    by simp
  also have "\<dots> = n + 2 ^ 64"
    using assms by (intro mod_pos_pos_trivial) simp_all
  finally show ?thesis
    by (simp add: uint_word_of_int)
qed

text \<open>
  C7, as the code has it. The specifications of the new operators are read before those
  of the old operators, and the first one that is not accepted decides the error. Let
  \<open>t\<close> be a specification of either list with only accepted ones before it. If \<open>t\<close>,
  without the spaces around it, does not split at \<^verbatim>\<open>=\<close> into exactly two parts, the
  parsing fails with the error that names \<open>t\<close> without those spaces. If it splits into
  two parts and \<^verbatim>\<open>strconv.Atoi\<close> rejects the first, the parsing fails with the
  error of \<^verbatim>\<open>Atoi\<close>. If \<^verbatim>\<open>Atoi\<close> accepts the first part as the number \<open>n\<close>,
  whatever its sign, \<open>t\<close> is accepted: when all specifications after \<open>t\<close> are accepted
  too, the parsing succeeds and the map of the list of \<open>t\<close> (the new operators, or the
  old operators) has an entry at the operator ID \<open>word_of_int n\<close>, which holds the
  address of \<open>t\<close> unless a later specification of the same list has the same ID. For a
  negative \<open>n\<close> that ID is the unsigned 64-bit number \<open>2 ^ 64 + n\<close>.
\<close>

theorem first_rejected_specification:
  assumes "flag_operator c @ flag_old_operator c = pre @ t # post"
    and "list_all accepted_spec pre"
  shows "(length (strings_Split (strings_Trim t) (CHR ''='')) \<noteq> 2 \<longrightarrow>
            parseResharingRequest c = Inl (ErrNotKeyValue (strings_Trim t)))
       \<and> (strings_Split (strings_Trim t) (CHR ''='') = [k, v] \<and> strconv_Atoi k = Inl ne \<longrightarrow>
            parseResharingRequest c = Inl (ErrAtoi k ne))
       \<and> (strings_Split (strings_Trim t) (CHR ''='') = [k, v] \<and> strconv_Atoi k = Inr n \<and>
          list_all accepted_spec post \<longrightarrow>
            (\<exists>request. parseResharingRequest c = Inr request))
       \<and> (strings_Split (strings_Trim t) (CHR ''='') = [k, v] \<and> strconv_Atoi k = Inr n \<and>
          list_all accepted_spec post \<and> flag_operator c = pre @ t # rest \<longrightarrow>
            (\<exists>request. parseResharingRequest c = Inr request \<and>
               Operators request (word_of_int n) \<noteq> None \<and>
               (list_all (\<lambda>t'. spec_operatorID t' \<noteq> Some (word_of_int n)) rest \<longrightarrow>
                  Operators request (word_of_int n) = Some v)))
       \<and> (strings_Split (strings_Trim t) (CHR ''='') = [k, v] \<and> strconv_Atoi k = Inr n \<and>
          list_all accepted_spec post \<and> pre = flag_operator c @ before \<longrightarrow>
            (\<exists>request. parseResharingRequest c = Inr request \<and>
               OperatorsOld request (word_of_int n) \<noteq> None \<and>
               (list_all (\<lambda>t'. spec_operatorID t' \<noteq> Some (word_of_int n)) post \<longrightarrow>
                  OperatorsOld request (word_of_int n) = Some v)))
       \<and> (strconv_Atoi k = Inr n \<and> n < 0 \<longrightarrow>
            uint (word_of_int n :: OperatorID) = 2 ^ 64 + n)"
proof (intro conjI impI)
  assume "length (strings_Split (strings_Trim t) (CHR ''='')) \<noteq> 2"
  then show "parseResharingRequest c = Inl (ErrNotKeyValue (strings_Trim t))"
    by (intro parseResharingRequest_first_error [OF assms] parse_operators_not_pair)
next
  assume "strings_Split (strings_Trim t) (CHR ''='') = [k, v] \<and> strconv_Atoi k = Inl ne"
  then show "parseResharingRequest c = Inl (ErrAtoi k ne)"
    by (intro parseResharingRequest_first_error [OF assms] parse_operators_bad_id) simp_all
next
  assume "strings_Split (strings_Trim t) (CHR ''='') = [k, v] \<and> strconv_Atoi k = Inr n \<and>
          list_all accepted_spec post"
  then have "list_all accepted_spec (pre @ t # post)"
    using assms(2) by (simp add: accepted_spec_def)
  then have "list_all accepted_spec (flag_operator c @ flag_old_operator c)"
    by (simp only: assms(1))
  then show "\<exists>request. parseResharingRequest c = Inr request"
    using parseResharingRequest_accepted by blast
next
  assume new: "strings_Split (strings_Trim t) (CHR ''='') = [k, v] \<and> strconv_Atoi k = Inr n \<and>
          list_all accepted_spec post \<and> flag_operator c = pre @ t # rest"
  then have "list_all accepted_spec (pre @ t # post)"
    using assms(2) by (simp add: accepted_spec_def)
  then have "list_all accepted_spec (flag_operator c @ flag_old_operator c)"
    by (simp only: assms(1))
  then obtain request where request: "parseResharingRequest c = Inr request"
    using parseResharingRequest_accepted by blast
  then have "parse_operators (pre @ t # rest) Map.empty = Inr (Operators request)"
    using new parseResharingRequest_Inr by fastforce
  then have "Operators request (word_of_int n) \<noteq> None"
    and "list_all (\<lambda>t'. spec_operatorID t' \<noteq> Some (word_of_int n)) rest \<Longrightarrow>
         Operators request (word_of_int n) = Some v"
    using new by (auto dest: parse_operators_stores)
  with request show "\<exists>request. parseResharingRequest c = Inr request \<and>
               Operators request (word_of_int n) \<noteq> None \<and>
               (list_all (\<lambda>t'. spec_operatorID t' \<noteq> Some (word_of_int n)) rest \<longrightarrow>
                  Operators request (word_of_int n) = Some v)"
    by blast
next
  assume old: "strings_Split (strings_Trim t) (CHR ''='') = [k, v] \<and> strconv_Atoi k = Inr n \<and>
          list_all accepted_spec post \<and> pre = flag_operator c @ before"
  then have "list_all accepted_spec (pre @ t # post)"
    using assms(2) by (simp add: accepted_spec_def)
  then have "list_all accepted_spec (flag_operator c @ flag_old_operator c)"
    by (simp only: assms(1))
  then obtain request where request: "parseResharingRequest c = Inr request"
    using parseResharingRequest_accepted by blast
  have "flag_old_operator c = before @ t # post"
    using assms(1) old by simp
  then have "parse_operators (before @ t # post) Map.empty = Inr (OperatorsOld request)"
    using request parseResharingRequest_Inr by fastforce
  then have "OperatorsOld request (word_of_int n) \<noteq> None"
    and "list_all (\<lambda>t'. spec_operatorID t' \<noteq> Some (word_of_int n)) post \<Longrightarrow>
         OperatorsOld request (word_of_int n) = Some v"
    using old by (auto dest: parse_operators_stores)
  with request show "\<exists>request. parseResharingRequest c = Inr request \<and>
               OperatorsOld request (word_of_int n) \<noteq> None \<and>
               (list_all (\<lambda>t'. spec_operatorID t' \<noteq> Some (word_of_int n)) post \<longrightarrow>
                  OperatorsOld request (word_of_int n) = Some v)"
    by blast
next
  assume "strconv_Atoi k = Inr n \<and> n < 0"
  then show "uint (word_of_int n :: OperatorID) = 2 ^ 64 + n"
    using strconv_Atoi_range [of k n] by (intro negative_wraps) simp_all
qed

theorem first_rejected_specification_witness:
  "parseResharingRequest malformed_ctx = Inl (ErrNotKeyValue ''2http://b'')
   \<and> parseResharingRequest bad_id_ctx = Inl (ErrAtoi ''x'' ErrSyntax)
   \<and> strconv_Atoi ''-1'' = Inr (- 1)
   \<and> (\<exists>request. parseResharingRequest negative_ctx = Inr request \<and>
         Operators request (- 1) = Some ''http://a'')
   \<and> (\<exists>request. parseResharingRequest scenario_ctx = Inr request \<and>
         OperatorsOld request 3 = Some ''http://c'')
   \<and> uint (- 1 :: OperatorID) = 18446744073709551615"
proof -
  have malformed: "flag_operator malformed_ctx @ flag_old_operator malformed_ctx =
      [''1=http://a''] @ '' 2http://b '' # []"
    by (simp add: session_defs)
  have bad_id: "flag_operator bad_id_ctx @ flag_old_operator bad_id_ctx =
      [''1=http://a''] @ ''x=http://c'' # []"
    by (simp add: session_defs)
  have negative: "flag_operator negative_ctx @ flag_old_operator negative_ctx =
      [] @ ''-1=http://a'' # []"
    by (simp add: session_defs)
  have scenario: "flag_operator scenario_ctx @ flag_old_operator scenario_ctx =
      [''1=http://a'', ''2=http://b'', ''1=http://a''] @ ''3=http://c'' # []"
    by (simp add: session_defs)
  have accepted: "list_all accepted_spec [''1=http://a'']" "list_all accepted_spec []"
    "list_all accepted_spec [''1=http://a'', ''2=http://b'', ''1=http://a'']"
    by (simp_all add: accepted_spec_def run_defs)
  have parts: "strings_Trim '' 2http://b '' = ''2http://b''"
    "length (strings_Split (strings_Trim '' 2http://b '') (CHR ''='')) \<noteq> 2"
    "strings_Split (strings_Trim ''x=http://c'') (CHR ''='') = [''x'', ''http://c'']"
    "strconv_Atoi ''x'' = Inl ErrSyntax"
    "strings_Split (strings_Trim ''-1=http://a'') (CHR ''='') = [''-1'', ''http://a'']"
    "strconv_Atoi ''-1'' = Inr (- 1)"
    "strings_Split (strings_Trim ''3=http://c'') (CHR ''='') = [''3'', ''http://c'']"
    "strconv_Atoi ''3'' = Inr 3"
    by (simp_all add: run_defs)
  have lists: "flag_operator negative_ctx = [] @ ''-1=http://a'' # []"
    "[''1=http://a'', ''2=http://b'', ''1=http://a''] = flag_operator scenario_ctx @ [''1=http://a'']"
    by (simp_all add: session_defs)
  show ?thesis
    using first_rejected_specification [OF malformed accepted(1)]
      first_rejected_specification [OF bad_id accepted(1), of "''x''" "''http://c''" ErrSyntax]
      first_rejected_specification [OF negative accepted(2),
        of "''-1''" "''http://a''" _ "- 1" "[]"]
      first_rejected_specification [OF scenario accepted(3),
        of "''3''" "''http://c''" _ 3 _ "[''1=http://a'']"]
      parts accepted lists
    by auto
qed

text \<open>
  The claim that an ID that parses as a negative integer fails fails for the
  specification \<^verbatim>\<open>-1=http://a\<close>: the parsing succeeds, and the conversion to
  \<^verbatim>\<open>types.OperatorID\<close> wraps the ID around to the largest unsigned 64-bit number.
\<close>

theorem negative_id_accepted_counterexample:
  "parseResharingRequest negative_ctx =
     Inr \<lparr>Operators = [- 1 \<mapsto> ''http://a''], Threshold = 1, ValidatorPK = ''ab12'',
          OperatorsOld = Map.empty\<rparr>
   \<and> unat (- 1 :: OperatorID) = 18446744073709551615"
  by (simp add: run_defs session_defs unsigned_minus_1_eq_mask mask_eq_exp_minus_1)

section \<open>Registration of an operator node\<close>

lemma register_loop_success:
  assumes "try \<le> numtries"
    and "register_answer w (length (calls w)) SrvAddr DefaultTopic nodeID addr = StatusCode 200"
  shows "register_loop SrvAddr DefaultTopic nodeID addr numtries try errors w =
     (Returned (try, errors),
      w\<lparr>calls := calls w @ [register_call SrvAddr DefaultTopic nodeID addr]\<rparr>)"
  using assms
  by (subst register_loop.simps) (simp add: http_Post_def register_answer_def register_call_def)

lemma register_loop_other_status:
  assumes "try \<le> numtries"
    and "register_answer w (length (calls w)) SrvAddr DefaultTopic nodeID addr = StatusCode code"
    and "code \<noteq> 200"
  shows "register_loop SrvAddr DefaultTopic nodeID addr numtries try errors w =
     (Panic, w\<lparr>calls := calls w @ [register_call SrvAddr DefaultTopic nodeID addr]\<rparr>)"
  using assms
  by (subst register_loop.simps) (simp add: http_Post_def register_answer_def register_call_def)

lemma register_loop_transport_error:
  assumes "try \<le> numtries"
    and "register_answer w (length (calls w)) SrvAddr DefaultTopic nodeID addr = TransportError e"
    and "try' = try + 1"
  shows "register_loop SrvAddr DefaultTopic nodeID addr numtries try errors w =
     register_loop SrvAddr DefaultTopic nodeID addr numtries try'
       (errors @ [ErrMakeRequest e])
       (w\<lparr>calls := calls w @ [register_call SrvAddr DefaultTopic nodeID addr],
          logged := logged w @ [ErrMakeRequest e]\<rparr>)"
  using assms
  by (subst register_loop.simps) (simp add: http_Post_def register_answer_def register_call_def)

lemma register_loop_done:
  "numtries < try \<Longrightarrow>
   register_loop SrvAddr DefaultTopic nodeID addr numtries try errors w =
     (Returned (try, errors), w)"
  by (subst register_loop.simps) simp

text \<open>
  The parts of the retry policy that hold: an attempt answered with the status 200 ends
  the loop with success, here the first; and three transport errors in a row end it
  with the error that holds all three.
\<close>

lemma RegisterOperatorNode_first_success:
  assumes "register_answer w (length (calls w)) SrvAddr DefaultTopic nodeID addr = StatusCode 200"
  shows "RegisterOperatorNode SrvAddr DefaultTopic nodeID addr w =
     (Returned None, w\<lparr>calls := calls w @ [register_call SrvAddr DefaultTopic nodeID addr]\<rparr>)"
  using assms by (simp add: RegisterOperatorNode_def register_loop_success)

lemma RegisterOperatorNode_three_transport_errors:
  assumes "register_answer w (length (calls w)) SrvAddr DefaultTopic nodeID addr = TransportError e1"
    and "register_answer w (length (calls w) + 1) SrvAddr DefaultTopic nodeID addr = TransportError e2"
    and "register_answer w (length (calls w) + 2) SrvAddr DefaultTopic nodeID addr = TransportError e3"
  shows "RegisterOperatorNode SrvAddr DefaultTopic nodeID addr w =
     (Returned (Some (ErrRegisterTries 3
        [ErrMakeRequest e1, ErrMakeRequest e2, ErrMakeRequest e3])),
      w\<lparr>calls := calls w @ replicate 3 (register_call SrvAddr DefaultTopic nodeID addr),
         logged := logged w @ [ErrMakeRequest e1, ErrMakeRequest e2, ErrMakeRequest e3]\<rparr>)"
proof -
  let ?call = "register_call SrvAddr DefaultTopic nodeID addr"
  let ?w1 = "w\<lparr>calls := calls w @ [?call], logged := logged w @ [ErrMakeRequest e1]\<rparr>"
  let ?w2 = "?w1\<lparr>calls := calls ?w1 @ [?call], logged := logged ?w1 @ [ErrMakeRequest e2]\<rparr>"
  let ?w3 = "?w2\<lparr>calls := calls ?w2 @ [?call], logged := logged ?w2 @ [ErrMakeRequest e3]\<rparr>"
  have "register_loop SrvAddr DefaultTopic nodeID addr 3 1 [] w =
        register_loop SrvAddr DefaultTopic nodeID addr 3 2 ([] @ [ErrMakeRequest e1]) ?w1"
    by (rule register_loop_transport_error) (simp_all add: assms(1))
  also have "\<dots> = register_loop SrvAddr DefaultTopic nodeID addr 3 3
        (([] @ [ErrMakeRequest e1]) @ [ErrMakeRequest e2]) ?w2"
    by (rule register_loop_transport_error)
      (use assms(2) in \<open>simp_all add: register_answer_def\<close>)
  also have "\<dots> = register_loop SrvAddr DefaultTopic nodeID addr 3 4
        ((([] @ [ErrMakeRequest e1]) @ [ErrMakeRequest e2]) @ [ErrMakeRequest e3]) ?w3"
    by (rule register_loop_transport_error)
      (use assms(3) in \<open>simp_all add: register_answer_def\<close>)
  also have "\<dots> = (Returned (4, (([] @ [ErrMakeRequest e1]) @ [ErrMakeRequest e2]) @
                               [ErrMakeRequest e3]), ?w3)"
    by (rule register_loop_done) simp
  finally show ?thesis
    by (simp add: RegisterOperatorNode_def numeral_3_eq_3)
qed

text \<open>
  Every answer with a status other than 200 makes the call panic, at whichever attempt
  it comes; here at the first.
\<close>

lemma RegisterOperatorNode_other_status_panics:
  assumes "register_answer w (length (calls w)) SrvAddr DefaultTopic nodeID addr = StatusCode code"
    and "code \<noteq> 200"
  shows "RegisterOperatorNode SrvAddr DefaultTopic nodeID addr w =
     (Panic, w\<lparr>calls := calls w @ [register_call SrvAddr DefaultTopic nodeID addr]\<rparr>)"
  using assms by (simp add: RegisterOperatorNode_def register_loop_other_status)

text \<open>
  C5 at a messenger that answers every registration with the status 500: the claim
  promises three attempts and then an error that holds the three errors; the call
  panics in its first attempt, after one request.
\<close>

theorem registration_all_500_panics:
  "RegisterOperatorNode ''http://m'' ''default'' ''7'' ''http://op7'' world_500 =
     (Panic,
      world_500\<lparr>calls := [(''http://m/register_node?subscribes_to=default'',
                            SubscriberJSON ''7'' ''http://op7'')]\<rparr>)"
  by (simp add: RegisterOperatorNode_def register_loop.simps http_Post_def world_500_def)

text \<open>
  C10 at a messenger whose first connection fails and that answers 404 afterwards: the
  transport error of the first attempt is recorded, and the second attempt, whose
  \<^verbatim>\<open>Post\<close> succeeded with a status other than 200, panics while it builds its
  error: the call does not return and the only error logged is the first.
\<close>

theorem registration_other_status_panics:
  "fst (RegisterOperatorNode ''http://m'' ''default'' ''7'' ''http://op7'' world_timeout_404) = Panic
   \<and> logged (snd (RegisterOperatorNode ''http://m'' ''default'' ''7'' ''http://op7''
                     world_timeout_404)) = [ErrMakeRequest ''timeout'']
   \<and> length (calls (snd (RegisterOperatorNode ''http://m'' ''default'' ''7'' ''http://op7''
                            world_timeout_404))) = 2"
  by (simp add: RegisterOperatorNode_def register_loop.simps http_Post_def world_timeout_404_def)

end
